theory Spec2Isabelle
  imports Complex_Main "HOL-Library.Sublist"
begin

section \<open>Python strings\<close>

text \<open>
  A Python \<open>str\<close> is a sequence of code points. The model is \<^typ>\<open>string\<close>, whose
  characters are the code points below 256 (Latin-1); the character classes below are
  those of Python 3 on that range. Text with code points from 256 on is outside the model.
\<close>

definition ord :: "char \<Rightarrow> nat" where
  "ord c = of_char c"

text \<open>\<open>str.isspace\<close>, which is also the class \<open>\s\<close> of \<open>re\<close> and what \<open>str.strip\<close> and
  \<open>str.split\<close> remove.\<close>

definition isspace :: "char \<Rightarrow> bool" where
  "isspace c = (let n = ord c in (9 \<le> n \<and> n \<le> 13) \<or> (28 \<le> n \<and> n \<le> 32) \<or> n = 133 \<or> n = 160)"

text \<open>The class \<open>\d\<close> (and \<open>[0-9]\<close>): the decimal digits.\<close>

definition isdigit :: "char \<Rightarrow> bool" where
  "isdigit c = (let n = ord c in 48 \<le> n \<and> n \<le> 57)"

text \<open>The classes \<open>[A-Z]\<close> and \<open>[a-z]\<close>.\<close>

definition isupper_az :: "char \<Rightarrow> bool" where
  "isupper_az c = (let n = ord c in 65 \<le> n \<and> n \<le> 90)"

definition islower_az :: "char \<Rightarrow> bool" where
  "islower_az c = (let n = ord c in 97 \<le> n \<and> n \<le> 122)"

text \<open>The class \<open>\w\<close>: alphanumeric (\<open>str.isalnum\<close>) or the underscore.\<close>

definition isword :: "char \<Rightarrow> bool" where
  "isword c = (let n = ord c in
     (48 \<le> n \<and> n \<le> 57) \<or> (65 \<le> n \<and> n \<le> 90) \<or> n = 95 \<or> (97 \<le> n \<and> n \<le> 122)
     \<or> n = 170 \<or> n = 178 \<or> n = 179 \<or> n = 181 \<or> n = 185 \<or> n = 186
     \<or> (188 \<le> n \<and> n \<le> 190) \<or> (192 \<le> n \<and> n \<le> 214) \<or> (216 \<le> n \<and> n \<le> 246)
     \<or> 248 \<le> n)"

text \<open>\<open>str.lower\<close>, one character at a time.\<close>

definition lower_char :: "char \<Rightarrow> char" where
  "lower_char c = (let n = ord c in
     if (65 \<le> n \<and> n \<le> 90) \<or> (192 \<le> n \<and> n \<le> 214) \<or> (216 \<le> n \<and> n \<le> 222)
     then char_of (n + 32) else c)"

definition lower :: "string \<Rightarrow> string" where
  "lower s = map lower_char s"

text \<open>\<open>s.strip()\<close>.\<close>

definition strip :: "string \<Rightarrow> string" where
  "strip s = rev (dropWhile isspace (rev (dropWhile isspace s)))"

text \<open>\<open>x in s\<close> for strings: \<open>x\<close> occurs in \<open>s\<close> as a contiguous substring.\<close>

fun contains :: "string \<Rightarrow> string \<Rightarrow> bool" where
  "contains [] x = (x = [])"
| "contains (c # cs) x = (prefix x (c # cs) \<or> contains cs x)"

text \<open>\<open>s.startswith((p1, p2, ...))\<close>.\<close>

definition startswith :: "string \<Rightarrow> string list \<Rightarrow> bool" where
  "startswith s ps = list_ex (\<lambda>p. prefix p s) ps"

text \<open>\<open>s.split()\<close>: the maximal runs of non-whitespace characters.\<close>

fun split_acc :: "string \<Rightarrow> string \<Rightarrow> string list" where
  "split_acc w [] = (if w = [] then [] else [w])"
| "split_acc w (c # cs) =
     (if isspace c then (if w = [] then split_acc [] cs else w # split_acc [] cs)
      else split_acc (w @ [c]) cs)"

definition split :: "string \<Rightarrow> string list" where
  "split s = split_acc [] s"

text \<open>\<open>sep.join(xs)\<close>.\<close>

fun join :: "string \<Rightarrow> string list \<Rightarrow> string" where
  "join sep [] = []"
| "join sep [x] = x"
| "join sep (x # y # ys) = x @ sep @ join sep (y # ys)"

text \<open>\<open>s.index(x)\<close>: the first offset at which \<open>x\<close> occurs, or ValueError (\<open>None\<close>).\<close>

fun index_from :: "nat \<Rightarrow> string \<Rightarrow> string \<Rightarrow> nat option" where
  "index_from n [] x = (if x = [] then Some n else None)"
| "index_from n (c # cs) x = (if prefix x (c # cs) then Some n else index_from (Suc n) cs x)"

definition index :: "string \<Rightarrow> string \<Rightarrow> nat option" where
  "index s x = index_from 0 s x"

section \<open>Regular expressions\<close>

text \<open>
  The patterns of the source are matched by \<open>re\<close>, a backtracking matcher: alternatives
  are tried left to right, repetitions are greedy, and the first way to match wins. The
  model lists, for a pattern and a start offset, the ways to match in that order. A
  matcher state is the current offset and the span of capture group 1, if set.
\<close>

datatype regex =
    Eps
  | Cls "char \<Rightarrow> bool"
  | Bnd
  | Seq regex regex
  | Alt regex regex
  | Star regex
  | Grp regex

type_synonym span = "nat \<times> nat"
type_synonym mstate = "nat \<times> span option"

text \<open>\<open>\b\<close> holds between a word character and a non-word character or an end of the
  text.\<close>

definition word_at :: "string \<Rightarrow> nat \<Rightarrow> bool" where
  "word_at s i = (i < length s \<and> isword (s ! i))"

definition boundary :: "string \<Rightarrow> nat \<Rightarrow> bool" where
  "boundary s i = (word_at s i \<noteq> (0 < i \<and> word_at s (i - 1)))"

function ms :: "regex \<Rightarrow> string \<Rightarrow> mstate \<Rightarrow> mstate list" where
  "ms Eps s st = [st]"
| "ms (Cls p) s st = (if fst st < length s \<and> p (s ! fst st) then [(Suc (fst st), snd st)] else [])"
| "ms Bnd s st = (if boundary s (fst st) then [st] else [])"
| "ms (Seq a b) s st = concat (map (\<lambda>st'. ms b s st') (ms a s st))"
| "ms (Alt a b) s st = ms a s st @ ms b s st"
| "ms (Star a) s st =
     concat (map (\<lambda>st'. ms (Star a) s st')
       (filter (\<lambda>st'. fst st < fst st' \<and> fst st' \<le> length s) (ms a s st))) @ [st]"
| "ms (Grp a) s st = map (\<lambda>st'. (fst st', Some (fst st, fst st'))) (ms a s st)"
  by pat_completeness auto
termination
  by (relation "measures [\<lambda>(r, s, st). size r, \<lambda>(r, s, st). length s - fst st]") auto

text \<open>The equation of \<open>Star\<close> unfolds without end under the simplifier; it is applied by
  hand (lemma \<open>ms_Star_iff\<close>).\<close>

declare ms.simps(6) [simp del]

text \<open>The constructs the patterns use, built from the ones above.\<close>

definition lit :: "char \<Rightarrow> regex" where
  "lit c = Cls (\<lambda>x. x = c)"

definition lit_i :: "char \<Rightarrow> regex" where
  "lit_i c = Cls (\<lambda>x. lower_char x = lower_char c)"

fun str :: "string \<Rightarrow> regex" where
  "str [] = Eps"
| "str (c # cs) = Seq (lit c) (str cs)"

fun str_i :: "string \<Rightarrow> regex" where
  "str_i [] = Eps"
| "str_i (c # cs) = Seq (lit_i c) (str_i cs)"

definition opt :: "regex \<Rightarrow> regex" where
  "opt r = Alt r Eps"

definition plus :: "regex \<Rightarrow> regex" where
  "plus r = Seq r (Star r)"

fun seqs :: "regex list \<Rightarrow> regex" where
  "seqs [] = Eps"
| "seqs [r] = r"
| "seqs (r # rs) = Seq r (seqs rs)"

fun alts :: "regex list \<Rightarrow> regex" where
  "alts [] = Cls (\<lambda>_. False)"
| "alts [r] = r"
| "alts (r # rs) = Alt r (alts rs)"

text \<open>\<open>r{m}\<close> and \<open>r{0,n}\<close>; \<open>r{m,n}\<close> is \<open>times m r\<close> followed by \<open>upto (n - m) r\<close>.\<close>

fun times :: "nat \<Rightarrow> regex \<Rightarrow> regex" where
  "times 0 r = Eps"
| "times (Suc n) r = Seq r (times n r)"

fun upto :: "nat \<Rightarrow> regex \<Rightarrow> regex" where
  "upto 0 r = Eps"
| "upto (Suc n) r = opt (Seq r (upto n r))"

text \<open>A match: its start, its end and the span of group 1.\<close>

type_synonym match = "nat \<times> nat \<times> span option"

text \<open>\<open>re.search\<close> from offset \<open>i\<close>, with \<open>n\<close> start offsets left to try: the leftmost
  start that matches, with the first way to match there.\<close>

fun scan :: "regex \<Rightarrow> string \<Rightarrow> nat \<Rightarrow> nat \<Rightarrow> match option" where
  "scan r s i 0 = None"
| "scan r s i (Suc n) =
     (case ms r s (i, None) of
        [] \<Rightarrow> scan r s (Suc i) n
      | st # _ \<Rightarrow> Some (i, fst st, snd st))"

definition search_from :: "regex \<Rightarrow> string \<Rightarrow> nat \<Rightarrow> match option" where
  "search_from r s p = scan r s p (Suc (length s) - p)"

definition search :: "regex \<Rightarrow> string \<Rightarrow> match option" where
  "search r s = search_from r s 0"

text \<open>\<open>s[i:j]\<close>, \<open>m.group(0)\<close> and \<open>m.group(1)\<close>. In Python a group that took no part
  in the match reads as None; \<open>group1\<close> gives the empty string there. Every pattern below
  whose group 1 is read has the group on every way to match (lemma \<open>search_sets_group\<close>).\<close>

definition slice :: "string \<Rightarrow> nat \<Rightarrow> nat \<Rightarrow> string" where
  "slice s i j = take (j - i) (drop i s)"

definition group0 :: "string \<Rightarrow> match \<Rightarrow> string" where
  "group0 s m = slice s (fst m) (fst (snd m))"

definition group1 :: "string \<Rightarrow> match \<Rightarrow> string" where
  "group1 s m = (case snd (snd m) of None \<Rightarrow> [] | Some (a, b) \<Rightarrow> slice s a b)"

lemma scan_start: "scan r s i n = Some m \<Longrightarrow> i \<le> fst m \<and> fst m < i + n"
proof (induction n arbitrary: i)
  case 0
  then show ?case by simp
next
  case (Suc n)
  show ?case
  proof (cases "ms r s (i, None)")
    case Nil
    with Suc.prems have "scan r s (Suc i) n = Some m" by simp
    from Suc.IH [OF this] show ?thesis by simp
  next
    case (Cons st sts)
    with Suc.prems show ?thesis by auto
  qed
qed

text \<open>\<open>re.finditer\<close>: the matches from left to right, each search starting where the
  previous match ended (one further on after an empty match).\<close>

function finditer_from :: "regex \<Rightarrow> string \<Rightarrow> nat \<Rightarrow> match list" where
  "finditer_from r s p =
     (case search_from r s p of
        None \<Rightarrow> []
      | Some m \<Rightarrow> m # finditer_from r s (max (fst (snd m)) (Suc (fst m))))"
  by pat_completeness auto
termination
proof (relation "measure (\<lambda>(r, s, p). Suc (length s) - p)")
  show "wf (measure (\<lambda>(r, s, p). Suc (length s) - p))" by simp
next
  fix r :: regex and s :: string and p :: nat and m :: match
  assume "search_from r s p = Some m"
  then have "p \<le> fst m \<and> fst m < p + (Suc (length s) - p)"
    unfolding search_from_def by (rule scan_start)
  then show "((r, s, max (fst (snd m)) (Suc (fst m))), (r, s, p))
      \<in> measure (\<lambda>(r, s, p). Suc (length s) - p)"
    by auto
qed

definition finditer :: "regex \<Rightarrow> string \<Rightarrow> match list" where
  "finditer r s = finditer_from r s 0"

text \<open>\<open>re.split\<close> for a pattern without groups: the pieces between the matches.\<close>

fun pieces :: "string \<Rightarrow> nat \<Rightarrow> match list \<Rightarrow> string list" where
  "pieces s p [] = [slice s p (length s)]"
| "pieces s p (m # rest) = slice s p (fst m) # pieces s (fst (snd m)) rest"

definition re_split :: "regex \<Rightarrow> string \<Rightarrow> string list" where
  "re_split r s = pieces s 0 (finditer r s)"

section \<open>The detector agent\<close>

text \<open>
  \<open>src/agents/detector_agent.py\<close>. Python floats are modelled by the real numbers they
  stand for. A field that is \<open>Optional[str]\<close> is a \<^typ>\<open>string option\<close>. The \<open>notes\<close>
  field, a formatted summary for human readers, is not modelled; building it cannot fail
  and no other field depends on it.
\<close>

datatype error =
    ValueError string
  | TypeError string
  | AttributeError string
  | IndexError string
  | GraphRecursionError string
  | ServiceError string

record StructuredClaim =
  subject :: "string option"
  action :: "string option"
  location :: "string option"
  time :: "string option"
  sc_entities :: "string list"

record DetectionResult =
  dr_claim :: string
  domain :: string
  claim_type :: string
  entities :: "string list"
  dr_keywords :: "string list"
  structured_claim :: StructuredClaim
  search_queries :: "string list"
  risk_score :: real
  confidence :: real
  claim_complexity :: string
  supporting_evidence_types :: "string list"
  temporal_indicators :: "string list"
  quantitative_elements :: "string list"

text \<open>The tables of the class. A dict is the list of its items in insertion order, which
  is the order Python iterates it in. A set is the list of its members as written; Python
  fixes no iteration order for a set, and the source depends on it only in
  \<open>_extract_temporal_indicators\<close> (which member of a category is reported when several
  occur) and in \<open>_extract_entities\<close> (the order of entities with the same offset).\<close>

definition DOMAIN_KEYWORDS :: "(string \<times> string list) list" where
  "DOMAIN_KEYWORDS = [
     (''health'', [''virus'', ''covid'', ''pandemic'', ''vaccine'', ''mask'', ''outbreak'',
        ''hospital'', ''fever'', ''infection'', ''symptom'', ''treatment'', ''patient'', ''doctor'']),
     (''politics'', [''election'', ''minister'', ''president'', ''policy'', ''parliament'',
        ''government'', ''vote'', ''campaign'', ''bill'', ''law'', ''diplomat'', ''ambassador'']),
     (''travel'', [''airport'', ''flight'', ''train'', ''railway'', ''visa'', ''border'',
        ''airline'', ''runway'', ''luggage'', ''passport'', ''tourism'', ''cruise'']),
     (''disaster'', [''flood'', ''cyclone'', ''earthquake'', ''tsunami'', ''landslide'', ''storm'',
        ''wildfire'', ''evacuation'', ''relief'', ''rescue'', ''damage'']),
     (''finance'', [''stock'', ''market'', ''crore'', ''billion'', ''rupee'', ''dollar'',
        ''inflation'', ''interest'', ''budget'', ''bank'', ''investment'', ''economy'']),
     (''technology'', [''ai'', ''cyber'', ''hack'', ''malware'', ''data leak'', ''server'', ''chip'',
        ''software'', ''app'', ''internet'', ''network'', ''gadget'']),
     (''general'', [])]"

definition EMERGENCY_WORDS :: "string list" where
  "EMERGENCY_WORDS = [''breaking'', ''urgent'', ''alert'', ''warning'', ''emergency'', ''crisis'',
     ''panic'', ''chaos'', ''collapse'', ''failure'', ''disaster'']"

definition ACTION_PATTERNS :: "string list" where
  "ACTION_PATTERNS = [''flight cancelled'', ''flight canceled'', ''airport closed'',
     ''airport shutdown'', ''school closed'', ''lockdown'', ''virus outbreak'', ''cases rising'',
     ''explosive spread'', ''power outage'', ''internet shutdown'', ''bank closed'',
     ''market crash'', ''train derailed'', ''bridge collapsed'']"

definition STOPWORDS :: "string list" where
  "STOPWORDS = [''the'', ''and'', ''that'', ''this'', ''with'', ''from'', ''have'', ''been'', ''will'',
     ''about'', ''over'', ''into'', ''after'', ''before'', ''today'', ''news'', ''claims'',
     ''claim'', ''says'', ''said'', ''according'', ''reports'', ''reported'', ''source'']"

text \<open>\<open>[A-Z][a-z]+(?:\s[A-Z][a-z]+)*\<close>, part of three patterns.\<close>

definition cap_words :: regex where
  "cap_words = seqs [Cls isupper_az, plus (Cls islower_az),
     Star (seqs [Cls isspace, Cls isupper_az, plus (Cls islower_az)])]"

text \<open>\<open>\b[A-Z][a-z]+(?:\s[A-Z][a-z]+)*\b\<close>\<close>

definition ENTITY_PATTERN :: regex where
  "ENTITY_PATTERN = seqs [Bnd, cap_words, Bnd]"

definition digit :: regex where
  "digit = Cls isdigit"

definition space :: regex where
  "space = Cls isspace"

text \<open>The seven patterns, in the order of the list:
  \<^verbatim>\<open>\b\d+(?:\.\d+)?%\s\<close>,
  \<^verbatim>\<open>\b\d{1,3}(?:,\d{3})*(?:\.\d+)?\s*(?:billion|million|thousand|crore|lakh)\b\<close>,
  \<^verbatim>\<open>\b\d+\s*(?:cases?|deaths?|patients?|tests?|infections?)\b\<close>,
  \<^verbatim>\<open>\b\d+\s*(?:people?|persons?|individuals?|victims?)\b\<close>,
  \<^verbatim>\<open>\b\d+\s*(?:flights?|trains?|vehicles?|ships?)\b\<close>,
  \<^verbatim>\<open>\b\d+\s*(?:rupees?|dollars?|euros?)\b\<close>,
  \<^verbatim>\<open>\b\d+(?:\.\d+)?\s*(?:degrees?|\<degree>C|\<degree>F)\b\<close>
  (the degree sign is code point 176).\<close>

definition QUANTITATIVE_PATTERNS :: "regex list" where
  "QUANTITATIVE_PATTERNS = [
     seqs [Bnd, plus digit, opt (seqs [lit CHR ''.'', plus digit]), lit CHR ''%'', space],
     seqs [Bnd, times 1 digit, upto 2 digit, Star (seqs [lit CHR '','', times 3 digit]),
       opt (seqs [lit CHR ''.'', plus digit]), Star space,
       alts [str ''billion'', str ''million'', str ''thousand'', str ''crore'', str ''lakh''], Bnd],
     seqs [Bnd, plus digit, Star space,
       alts [seqs [str ''case'', opt (lit CHR ''s'')], seqs [str ''death'', opt (lit CHR ''s'')],
         seqs [str ''patient'', opt (lit CHR ''s'')], seqs [str ''test'', opt (lit CHR ''s'')],
         seqs [str ''infection'', opt (lit CHR ''s'')]], Bnd],
     seqs [Bnd, plus digit, Star space,
       alts [seqs [str ''peopl'', opt (lit CHR ''e'')], seqs [str ''person'', opt (lit CHR ''s'')],
         seqs [str ''individual'', opt (lit CHR ''s'')], seqs [str ''victim'', opt (lit CHR ''s'')]],
       Bnd],
     seqs [Bnd, plus digit, Star space,
       alts [seqs [str ''flight'', opt (lit CHR ''s'')], seqs [str ''train'', opt (lit CHR ''s'')],
         seqs [str ''vehicle'', opt (lit CHR ''s'')], seqs [str ''ship'', opt (lit CHR ''s'')]], Bnd],
     seqs [Bnd, plus digit, Star space,
       alts [seqs [str ''rupee'', opt (lit CHR ''s'')], seqs [str ''dollar'', opt (lit CHR ''s'')],
         seqs [str ''euro'', opt (lit CHR ''s'')]], Bnd],
     seqs [Bnd, plus digit, opt (seqs [lit CHR ''.'', plus digit]), Star space,
       alts [seqs [str ''degree'', opt (lit CHR ''s'')], seqs [lit (CHR 0xB0), lit CHR ''C''],
         seqs [lit (CHR 0xB0), lit CHR ''F'']], Bnd]]"

definition TEMPORAL_INDICATORS :: "(string \<times> string list) list" where
  "TEMPORAL_INDICATORS = [
     (''immediate'', [''breaking'', ''just now'', ''moments ago'', ''right now'', ''live'']),
     (''short_term'', [''today'', ''tonight'', ''tomorrow'', ''yesterday'', ''this morning'',
        ''this evening'', ''this week'', ''next few hours'']),
     (''medium_term'', [''past 24 hours'', ''past few days'', ''last week'', ''recent'',
        ''this month'', ''past month'', ''next week'']),
     (''long_term'', [''past year'', ''over the past'', ''several months'', ''this year'',
        ''last year'', ''coming months''])]"

definition SUPPORT_EVIDENCE_INDICATORS :: "(string \<times> string list) list" where
  "SUPPORT_EVIDENCE_INDICATORS = [
     (''official'', [''official'', ''government'', ''authorities'', ''spokesperson'', ''statement'',
        ''press release'', ''ministry'', ''agency'', ''department'']),
     (''statistical'', [''study'', ''research'', ''data'', ''survey'', ''statistics'', ''figures'',
        ''analysis'', ''report'', ''metrics'', ''numbers'']),
     (''eyewitness'', [''resident'', ''witness'', ''local'', ''on the ground'', ''firsthand'',
        ''eyewitness'', ''passerby'', ''neighbor'']),
     (''media'', [''reported by'', ''according to'', ''sources say'', ''media reports'',
        ''journalist'', ''correspondent'', ''broadcast'']),
     (''expert'', [''expert'', ''scientist'', ''doctor'', ''professor'', ''analyst'',
        ''specialist'', ''researcher''])]"

text \<open>A dict value of a key that is present.\<close>

definition lookup :: "(string \<times> string list) list \<Rightarrow> string \<Rightarrow> string list" where
  "lookup d k = (case map_of d k of None \<Rightarrow> [] | Some v \<Rightarrow> v)"

text \<open>The truth value of an \<open>Optional[str]\<close>: neither None nor empty.\<close>

definition truthy :: "string option \<Rightarrow> bool" where
  "truthy x = (case x of None \<Rightarrow> False | Some v \<Rightarrow> v \<noteq> [])"

definition text_of :: "string option \<Rightarrow> string" where
  "text_of x = (case x of None \<Rightarrow> ''None'' | Some v \<Rightarrow> v)"

subsection \<open>Core analysis methods\<close>

fun first_domain :: "(string \<times> string list) list \<Rightarrow> string \<Rightarrow> string" where
  "first_domain [] claim_lower = ''general''"
| "first_domain ((d, kws) # rest) claim_lower =
     (if list_ex (\<lambda>word. contains claim_lower word) kws then d
      else first_domain rest claim_lower)"

definition detect_domain :: "string \<Rightarrow> string" where
  "detect_domain claim_lower = first_domain DOMAIN_KEYWORDS claim_lower"

definition classify_claim :: "string \<Rightarrow> string" where
  "classify_claim claim_lower =
     (if contains claim_lower ''?''
        \<or> startswith claim_lower [''did'', ''is'', ''are'', ''can'', ''does'', ''has'']
      then ''question''
      else if search digit claim_lower \<noteq> None then ''numerical_claim''
      else if list_ex (\<lambda>phrase. contains claim_lower phrase) ACTION_PATTERNS then ''action_claim''
      else ''narrative_claim'')"

definition extract_entities :: "string \<Rightarrow> string list" where
  "extract_entities claim =
     (let matches = remdups (map (\<lambda>m. strip (group0 claim m)) (finditer ENTITY_PATTERN claim));
          sorted_entities = List.map_filter
            (\<lambda>entity. map_option (\<lambda>i. (i, entity)) (index claim entity)) matches
      in map snd (take 5 (sort_key fst sorted_entities)))"

definition extract_keywords :: "string \<Rightarrow> string list" where
  "extract_keywords claim_lower =
     (let tokens = re_split (plus (Cls (\<lambda>c. \<not> (isword c \<or> c = CHR ''@'' \<or> c = CHR ''#''))))
            claim_lower;
          keywords = filter (\<lambda>tok. tok \<noteq> [] \<and> length tok > 3 \<and> tok \<notin> set STOPWORDS) tokens
      in take 8 keywords)"

text \<open>The two patterns of \<open>_extract_location\<close>:
  \<^verbatim>\<open>\b(?:in|at|near|from|to)\s+([A-Z][a-z]+(?:\s[A-Z][a-z]+)*)\<close> and
  \<^verbatim>\<open>\b([A-Z][a-z]+(?:\s[A-Z][a-z]+)*)\s+(?:airport|hospital|station|city)\b\<close>.\<close>

definition location_patterns :: "regex list" where
  "location_patterns = [
     seqs [Bnd, alts [str ''in'', str ''at'', str ''near'', str ''from'', str ''to''], plus space,
       Grp cap_words],
     seqs [Bnd, Grp cap_words, plus space,
       alts [str ''airport'', str ''hospital'', str ''station'', str ''city''], Bnd]]"

fun first_group :: "regex list \<Rightarrow> string \<Rightarrow> string option" where
  "first_group [] claim = None"
| "first_group (pattern # rest) claim =
     (case search pattern claim of
        Some m \<Rightarrow> Some (strip (group1 claim m))
      | None \<Rightarrow> first_group rest claim)"

definition extract_location :: "string \<Rightarrow> string list \<Rightarrow> string option" where
  "extract_location claim ents =
     (case first_group location_patterns claim of
        Some loc \<Rightarrow> Some loc
      | None \<Rightarrow> (if length ents > 1 then Some (ents ! 1) else None))"

text \<open>\<^verbatim>\<open>\b(\d{1,2}\s?(?:am|pm))\b\<close>\<close>

definition time_pattern :: regex where
  "time_pattern = seqs [Bnd,
     Grp (seqs [times 1 digit, upto 1 digit, opt space, alts [str ''am'', str ''pm'']]), Bnd]"

definition extract_time_phrase :: "string \<Rightarrow> string option" where
  "extract_time_phrase claim_lower =
     (case search time_pattern claim_lower of
        Some time_match \<Rightarrow> Some (group1 claim_lower time_match)
      | None \<Rightarrow> find (\<lambda>token. contains claim_lower token)
          [''morning'', ''evening'', ''tonight'', ''today'', ''tomorrow'', ''yesterday''])"

text \<open>\<^verbatim>\<open>\b(shut\s+down|cancelled|canceled|closed|delay|postponed|confirmed|declared|announced|reported|confirmed|denied|verified)\b\<close>\<close>

definition action_pattern :: regex where
  "action_pattern = seqs [Bnd,
     Grp (alts [seqs [str ''shut'', plus space, str ''down''], str ''cancelled'', str ''canceled'',
       str ''closed'', str ''delay'', str ''postponed'', str ''confirmed'', str ''declared'',
       str ''announced'', str ''reported'', str ''confirmed'', str ''denied'', str ''verified'']),
     Bnd]"

definition extract_action :: "string \<Rightarrow> string option" where
  "extract_action claim_lower =
     (case find (\<lambda>phrase. contains claim_lower phrase) ACTION_PATTERNS of
        Some phrase \<Rightarrow> Some phrase
      | None \<Rightarrow>
          (case search action_pattern claim_lower of
             Some action_match \<Rightarrow> Some (group1 claim_lower action_match)
           | None \<Rightarrow> None))"

definition build_structured_claim :: "string \<Rightarrow> string list \<Rightarrow> StructuredClaim" where
  "build_structured_claim claim ents =
     (let claim_lower = lower claim;
          subj = (if ents \<noteq> [] then Some (ents ! 0) else None);
          loc = extract_location claim ents;
          time_phrase = extract_time_phrase claim_lower;
          act = extract_action claim_lower
      in \<lparr>subject = subj, action = act, location = loc, time = time_phrase,
          sc_entities = ents\<rparr>)"

subsection \<open>Enhanced analysis methods\<close>

definition extract_quantitative_elements :: "string \<Rightarrow> string list" where
  "extract_quantitative_elements claim =
     take 5 (concat (map (\<lambda>pattern. map (\<lambda>m. strip (group0 claim m)) (finditer pattern claim))
       QUANTITATIVE_PATTERNS))"

text \<open>\<^verbatim>\<open>\band\b|\bor\b\<close> and \<^verbatim>\<open>[,.]\s+[A-Z]\<close>\<close>

definition conjunction_pattern :: regex where
  "conjunction_pattern = Alt (seqs [Bnd, str ''and'', Bnd]) (seqs [Bnd, str ''or'', Bnd])"

definition clause_pattern :: regex where
  "clause_pattern = seqs [Cls (\<lambda>c. c = CHR '','' \<or> c = CHR ''.''), plus space, Cls isupper_az]"

definition assess_claim_complexity :: "string \<Rightarrow> string" where
  "assess_claim_complexity claim =
     (let word_count = length (split claim);
          entity_count = length (extract_entities claim);
          has_conjunctions = (search conjunction_pattern (lower claim) \<noteq> None);
          has_multiple_clauses = (search clause_pattern claim \<noteq> None);
          has_quantitative = (extract_quantitative_elements claim \<noteq> [])
      in if word_count \<le> 15 \<and> entity_count \<le> 2 \<and> \<not> has_multiple_clauses \<and> \<not> has_quantitative
         then ''simple''
         else if word_count \<le> 40 \<and> entity_count \<le> 4 \<and> \<not> has_conjunctions
         then ''moderate''
         else ''complex'')"

definition identify_supporting_evidence_types :: "string \<Rightarrow> string list" where
  "identify_supporting_evidence_types claim_lower =
     take 3 (map fst (filter
       (\<lambda>(evidence_type, indicators). list_ex (\<lambda>indicator. contains claim_lower indicator) indicators)
       SUPPORT_EVIDENCE_INDICATORS))"

definition extract_temporal_indicators :: "string \<Rightarrow> string list" where
  "extract_temporal_indicators claim_lower =
     take 3 (List.map_filter
       (\<lambda>(category, indicators). find (\<lambda>indicator. contains claim_lower indicator) indicators)
       TEMPORAL_INDICATORS)"

definition calculate_evidence_confidence :: "string list \<Rightarrow> string list \<Rightarrow> real" where
  "calculate_evidence_confidence supporting_types temporal =
     (let confidence_bonus = 0.0;
          confidence_bonus =
            (if ''official'' \<in> set supporting_types then confidence_bonus + 0.15
             else if ''statistical'' \<in> set supporting_types then confidence_bonus + 0.10
             else if ''expert'' \<in> set supporting_types then confidence_bonus + 0.08
             else confidence_bonus);
          confidence_bonus =
            (if length supporting_types > 1
             then confidence_bonus + 0.05 * (real (length supporting_types) - 1)
             else confidence_bonus);
          recent_indicators = lookup TEMPORAL_INDICATORS ''immediate'';
          confidence_bonus =
            (if list_ex (\<lambda>indicator. indicator \<in> set recent_indicators) temporal
             then confidence_bonus + 0.08
             else if list_ex (\<lambda>indicator. indicator \<in> set (lookup TEMPORAL_INDICATORS ''short_term''))
                       temporal
             then confidence_bonus + 0.04
             else confidence_bonus)
      in min 0.25 confidence_bonus)"

subsection \<open>Search query generation\<close>

text \<open>\<open>_deduplicate_queries\<close>, with the set \<open>seen\<close> of the loop as a parameter.\<close>

fun dedup_loop :: "string list \<Rightarrow> string list \<Rightarrow> string list" where
  "dedup_loop seen [] = []"
| "dedup_loop seen (q # queries) =
     (let normalized = lower (strip q)
      in if normalized = [] \<or> normalized \<in> set seen then dedup_loop seen queries
         else strip q # dedup_loop (normalized # seen) queries)"

definition deduplicate_queries :: "string list \<Rightarrow> string list" where
  "deduplicate_queries queries = dedup_loop [] queries"

definition quoted :: "string \<Rightarrow> string" where
  "quoted x = [CHR 0x22] @ x @ [CHR 0x22]"

definition domain_hints :: "(string \<times> string list) list" where
  "domain_hints = [
     (''health'', [''official health update'', ''health ministry statement'', ''medical report'']),
     (''politics'', [''fact check'', ''official statement'', ''government announcement'']),
     (''travel'', [''status update'', ''travel advisory'', ''flight information'']),
     (''disaster'', [''relief update'', ''emergency services'', ''damage assessment'']),
     (''finance'', [''market news'', ''financial report'', ''economic update'']),
     (''technology'', [''cyber alert'', ''security update'', ''tech news''])]"

definition generate_search_queries ::
  "string \<Rightarrow> StructuredClaim \<Rightarrow> string list \<Rightarrow> string \<Rightarrow> string list" where
  "generate_search_queries claim structured ents domain_name =
     (let queries = [claim];
          queries = (if truthy (subject structured) \<and> truthy (action structured)
            then queries @ [text_of (subject structured) @ '' '' @ text_of (action structured)]
            else queries);
          queries = (if truthy (location structured) \<and> truthy (action structured)
            then queries @ [text_of (location structured) @ '' '' @ text_of (action structured)]
            else queries);
          queries = (if truthy (location structured) \<and> truthy (time structured)
            then queries @ [text_of (location structured) @ '' '' @ text_of (time structured)]
            else queries);
          queries = queries @ concat (map
            (\<lambda>ent. if truthy (action structured)
               then [quoted ent @ '' '' @ text_of (action structured)] else [])
            (take 2 ents));
          queries = (if domain_name \<in> fst ` set domain_hints \<and> truthy (subject structured)
            then queries @ map (\<lambda>hint. quoted (text_of (subject structured)) @ '' '' @ hint)
                   (take 2 (lookup domain_hints domain_name))
            else queries)
      in deduplicate_queries queries)"

definition evidence_modifiers :: "(string \<times> string list) list" where
  "evidence_modifiers = [
     (''official'', [''official statement'', ''government confirmation'', ''press release'',
        ''authorities'']),
     (''statistical'', [''study'', ''research'', ''official data'', ''statistics'', ''report'']),
     (''eyewitness'', [''witness accounts'', ''resident reports'', ''firsthand accounts'',
        ''local sources'']),
     (''media'', [''news report'', ''journalist account'', ''media coverage'', ''broadcast'']),
     (''expert'', [''expert analysis'', ''specialist opinion'', ''professional assessment''])]"

definition generate_contextual_search_queries :: "StructuredClaim \<Rightarrow> string list \<Rightarrow> string list" where
  "generate_contextual_search_queries structured supporting_types =
     concat (map
       (\<lambda>evidence_type.
          if evidence_type \<in> fst ` set evidence_modifiers \<and> truthy (subject structured)
          then map (\<lambda>modifier. quoted (text_of (subject structured)) @ '' '' @ modifier)
                 (take 2 (lookup evidence_modifiers evidence_type))
          else [])
       supporting_types)"

subsection \<open>Scoring methods\<close>

definition score_risk :: "string \<Rightarrow> string \<Rightarrow> real" where
  "score_risk claim ctype =
     (let risk = 0.3;
          claim_lower = lower claim;
          risk = (if ctype = ''question'' then risk + 0.10
                  else if ctype = ''numerical_claim'' then risk + 0.20
                  else if ctype = ''action_claim'' then risk + 0.15
                  else risk);
          risk = (if list_ex (\<lambda>word. contains claim_lower word) EMERGENCY_WORDS
                  then risk + 0.25 else risk);
          risk = (if search (Seq (times 3 digit) (Star digit)) claim \<noteq> None
                  then risk + 0.15 else risk);
          risk = (if length claim > 240 then risk - 0.05 else risk);
          risk = (if extract_quantitative_elements claim \<noteq> [] then risk + 0.10 else risk)
      in max 0.1 (min 1.0 risk))"

definition score_confidence :: "string \<Rightarrow> real \<Rightarrow> nat \<Rightarrow> real" where
  "score_confidence ctype risk entity_count =
     (let base = (if ctype \<noteq> ''narrative_claim'' then 0.55 else 0.4);
          base = base + 0.08 * real (min entity_count 3);
          base = base + 0.10 * (risk - 0.3)
      in max 0.35 (min 0.85 base))"

subsection \<open>The main detection method\<close>

definition detect :: "string \<Rightarrow> error + DetectionResult" where
  "detect claim =
     (let clean_claim = strip claim
      in if length clean_claim < 8
         then Inl (ValueError ''Claim must be at least 8 characters long'')
         else
           let claim_lower = lower clean_claim;
               ctype = classify_claim claim_lower;
               domain_name = detect_domain claim_lower;
               ents = extract_entities clean_claim;
               kws = extract_keywords claim_lower;
               structured = build_structured_claim clean_claim ents;
               queries = generate_search_queries clean_claim structured ents domain_name;
               risk = score_risk clean_claim ctype;
               conf = score_confidence ctype risk (length ents);
               complexity = assess_claim_complexity clean_claim;
               supporting_types = identify_supporting_evidence_types claim_lower;
               temporal = extract_temporal_indicators claim_lower;
               quantitative = extract_quantitative_elements clean_claim;
               evidence_bonus = calculate_evidence_confidence supporting_types temporal;
               adjusted_confidence = min 0.95 (conf + evidence_bonus);
               contextual_queries = generate_contextual_search_queries structured supporting_types;
               all_queries = take 8 (deduplicate_queries (queries @ contextual_queries))
           in Inr \<lparr>dr_claim = clean_claim, domain = domain_name, claim_type = ctype, entities = ents,
                dr_keywords = kws, structured_claim = structured, search_queries = all_queries,
                risk_score = risk, confidence = adjusted_confidence,
                claim_complexity = complexity, supporting_evidence_types = supporting_types,
                temporal_indicators = temporal, quantitative_elements = quantitative\<rparr>)"

section \<open>The verifier agent\<close>

text \<open>
  \<open>src/agents/verifier_agent.py\<close>. The three services the method talks to are parameters
  of the model: the similarity search of the vector store, the feed parser and the
  reasoning client. Each returns its value or the exception it raised. The module
  variable \<open>groq_client\<close> is None when no API key is configured.
\<close>

record EvidenceItem =
  title :: string
  url :: string
  summary :: string
  stance :: string
  published :: "string option"
  source_domain :: "string option"
  origin :: string

record VerificationResult =
  vr_claim :: string
  verdict :: string
  vr_confidence :: real
  rationale :: string
  evidence :: "EvidenceItem list"

record Document =
  metadata :: "string \<rightharpoonup> string"
  page_content :: string

text \<open>The prompt is a fixed text around two variable parts, the claim and the evidence
  digest; the reasoning client is given these two parts.\<close>

type_synonym prompt = "string \<times> string"

record collaborators =
  similarity_search_with_score :: "string \<Rightarrow> error + (Document \<times> real) list"
  fetch_recent :: "error + Document list"
  groq_client :: "(prompt \<Rightarrow> error + string) option"

text \<open>\<open>d.get(k, default)\<close> and \<open>a or b\<close> on optional strings.\<close>

definition get :: "(string \<rightharpoonup> string) \<Rightarrow> string \<Rightarrow> string \<Rightarrow> string" where
  "get d k dflt = (case d k of None \<Rightarrow> dflt | Some v \<Rightarrow> v)"

definition or_else :: "string option \<Rightarrow> string option \<Rightarrow> string option" where
  "or_else a b = (if truthy a then a else b)"

text \<open>\<open>s.split(sep)\<close> for a one-character separator.\<close>

fun split_on_acc :: "char \<Rightarrow> string \<Rightarrow> string \<Rightarrow> string list" where
  "split_on_acc sep w [] = [w]"
| "split_on_acc sep w (c # cs) =
     (if c = sep then w # split_on_acc sep [] cs else split_on_acc sep (w @ [c]) cs)"

definition split_on :: "char \<Rightarrow> string \<Rightarrow> string list" where
  "split_on sep s = split_on_acc sep [] s"

text \<open>\<open>url.split("/")[2] if url else None\<close>; the index raises IndexError on a URL with
  fewer than two slashes.\<close>

definition source_domain_of :: "string \<Rightarrow> error + string option" where
  "source_domain_of u =
     (if u \<noteq> [] then
        (let parts = split_on CHR ''/'' u
         in if 2 < length parts then Inr (Some (parts ! 2))
            else Inl (IndexError ''list index out of range''))
      else Inr None)"

text \<open>The loop over the results of one query. The state is the set \<open>seen\<close> and the list
  \<open>evidence\<close>; an exception ends the loop and keeps what the loop has changed so far
  (the enclosing \<open>try\<close> only logs it).\<close>

fun results_loop ::
  "(Document \<times> real) list \<Rightarrow> string list \<times> EvidenceItem list \<Rightarrow> string list \<times> EvidenceItem list"
where
  "results_loop [] acc = acc"
| "results_loop ((doc, score) # rest) (seen, ev) =
     (let u = get (metadata doc) ''url'' [];
          t = get (metadata doc) ''title'' [];
          key = (if u \<noteq> [] then u else t)
      in if key \<in> set seen \<or> score > 0.90 then results_loop rest (seen, ev)
         else
           (case source_domain_of u of
              Inl e \<Rightarrow> (key # seen, ev)
            | Inr sd \<Rightarrow>
                results_loop rest (key # seen,
                  ev @ [\<lparr>title = t, url = u, summary = take 1800 (page_content doc),
                    stance = ''neutral'',
                    published = or_else (metadata doc ''published'') (metadata doc ''date''),
                    source_domain = sd, origin = ''dataset''\<rparr>])))"

fun queries_loop ::
  "(string \<Rightarrow> error + (Document \<times> real) list) \<Rightarrow> string list
     \<Rightarrow> string list \<times> EvidenceItem list \<Rightarrow> string list \<times> EvidenceItem list"
where
  "queries_loop faiss [] acc = acc"
| "queries_loop faiss (query # rest) acc =
     (case faiss query of
        Inl e \<Rightarrow> queries_loop faiss rest acc
      | Inr results \<Rightarrow> queries_loop faiss rest (results_loop results acc))"

fun rss_loop :: "Document list \<Rightarrow> string list \<times> EvidenceItem list \<Rightarrow> string list \<times> EvidenceItem list"
where
  "rss_loop [] acc = acc"
| "rss_loop (doc # rest) (seen, ev) =
     (let u = get (metadata doc) ''url'' []
      in if u \<in> set seen then rss_loop rest (seen, ev)
         else rss_loop rest (u # seen,
           ev @ [\<lparr>title = get (metadata doc) ''title'' ''News'', url = u,
             summary = take 1800 (page_content doc), stance = ''neutral'',
             published = metadata doc ''published'', source_domain = None,
             origin = ''rss''\<rparr>]))"

definition all_queries :: "string \<Rightarrow> string list" where
  "all_queries claim =
     (let base_queries = [claim, claim @ '' official'', claim @ '' government announcement'',
            claim @ '' 2025'', claim @ '' latest update''];
          claim_lower = lower claim;
          extra_queries = [];
          extra_queries =
            (if list_ex (\<lambda>state. contains claim_lower state)
                  [''delhi'', ''up'', ''uttar pradesh'', ''maharashtra'', ''bihar'', ''tamil nadu'',
                   ''kerala'', ''gujarat'', ''rajasthan'']
             then extra_queries @ [claim @ '' school holiday calendar 2025-26'',
                    claim @ '' education department circular'']
             else extra_queries);
          extra_queries =
            (if contains claim_lower ''cbse''
             then extra_queries @ [''CBSE official circular'', ''CBSE datesheet 2026'',
                    ''cbseacademic.nic.in'']
             else extra_queries);
          extra_queries =
            (if contains claim_lower ''up board'' \<or> contains claim_lower ''upmsp''
             then extra_queries @ [''UP Board official announcement 2025-26'']
             else extra_queries);
          extra_queries =
            (if contains claim_lower ''neet'' \<or> contains claim_lower ''jee''
             then extra_queries @ [''NTA official notification'']
             else extra_queries)
      in base_queries @ extra_queries)"

definition gather_evidence :: "collaborators \<Rightarrow> string \<Rightarrow> EvidenceItem list" where
  "gather_evidence C claim =
     (let acc = queries_loop (similarity_search_with_score C) (all_queries claim) ([], []);
          acc = (case fetch_recent C of Inl e \<Rightarrow> acc | Inr docs \<Rightarrow> rss_loop docs acc)
      in snd acc)"

text \<open>\<open>str(n)\<close> for a non-negative integer.\<close>

fun str_nat :: "nat \<Rightarrow> string" where
  "str_nat n = (if n < 10 then [char_of (48 + n)] else str_nat (n div 10) @ [char_of (48 + n mod 10)])"

definition newline :: string where
  "newline = [CHR 0x0A]"

definition evidence_text :: "EvidenceItem list \<Rightarrow> string" where
  "evidence_text ev =
     (if ev \<noteq> [] then
        join (newline @ newline)
          (map (\<lambda>(i, e).
             ''['' @ str_nat (i + 1) @ ''] '' @ text_of (or_else (source_domain e) (Some ''News''))
               @ '' | '' @ text_of (or_else (published e) (Some ''Recent'')) @ newline
               @ title e @ newline
               @ strip (take 1100 (summary e)))
           (enumerate 0 (take 20 ev)))
      else ''No credible sources found.'')"

text \<open>
  A Python float is a binary64 number. A real of the verifier's model is the float that
  Python writes with that decimal: it stands for the binary64 nearest to it, a tie going
  to the even significand, and for \<open>inf\<close> when the nearest one would need an exponent above
  1023. So the literal \<open>0.3\<close> of the source is \<open>0.3\<close> here and \<open>float("0.1235")\<close> is
  \<open>0.1235\<close>. What Python computes from a float, the model computes from the binary64
  value of the real (\<open>binary64\<close> below).
\<close>

text \<open>\<open>float(x)\<close> on a text of the shape \<open>digits\<close>, \<open>digits.\<close>, \<open>.digits\<close> or
  \<open>digits.digits\<close>; ValueError (\<open>None\<close>) on a text that is empty or a lone dot. The method
  calls it on what \<^verbatim>\<open>[0-9]*\.?[0-9]+\<close> matched, so other shapes (signs, exponents, blanks)
  are answered None here without arising. \<open>float\<close> returns the binary64 nearest to the
  decimal the text denotes (\<open>inf\<close> for a text beyond the largest float); the model
  returns that decimal, which stands for this float.\<close>

definition digits_value :: "string \<Rightarrow> nat" where
  "digits_value ds = foldl (\<lambda>n c. 10 * n + (ord c - 48)) 0 ds"

definition float_of :: "string \<Rightarrow> real option" where
  "float_of x =
     (let ip = takeWhile isdigit x; rest = dropWhile isdigit x
      in case rest of
           [] \<Rightarrow> if ip = [] then None else Some (real (digits_value ip))
         | c # fp \<Rightarrow>
             if c = CHR ''.'' \<and> list_all isdigit fp \<and> (ip \<noteq> [] \<or> fp \<noteq> [])
             then Some (real (digits_value ip) + real (digits_value fp) / 10 ^ length fp)
             else None)"

text \<open>The nearest integer, a tie to the even one.\<close>

definition round_half_even :: "real \<Rightarrow> int" where
  "round_half_even y =
     (let f = \<lfloor>y\<rfloor>; d = y - of_int f
      in if d < 1 / 2 then f else if 1 / 2 < d then f + 1 else if even f then f else f + 1)"

text \<open>The binary exponent of a non-negative real \<open>x\<close>: the largest \<open>e\<close> from -1022 to 1023
  with \<open>2\<^sup>e \<le> x\<close>, and -1022 when there is none. It is found by steps up from 0 or down
  from -1; the first argument bounds the number of steps.\<close>

fun exponent_up :: "nat \<Rightarrow> int \<Rightarrow> real \<Rightarrow> int" where
  "exponent_up n e x =
     (if n = 0 then e else if 2 powi (e + 1) \<le> x then exponent_up (n - 1) (e + 1) x else e)"

fun exponent_down :: "nat \<Rightarrow> int \<Rightarrow> real \<Rightarrow> int" where
  "exponent_down n e x =
     (if n = 0 then e else if 2 powi e \<le> x then e else exponent_down (n - 1) (e - 1) x)"

declare exponent_up.simps [simp del] exponent_down.simps [simp del]

definition exponent :: "real \<Rightarrow> int" where
  "exponent x = (if 1 \<le> x then exponent_up 1023 0 x else exponent_down 1021 (- 1) x)"

text \<open>The binary64 nearest to a real: its magnitude is a whole number of units of
  \<open>2\<^sup>e\<^sup>-\<^sup>5\<^sup>2\<close>, the nearest one, a tie to the even one. The real stands for \<open>inf\<close> when
  this number reaches \<open>2\<^sup>5\<^sup>3\<close> at the largest exponent.\<close>

definition significand :: "real \<Rightarrow> int" where
  "significand x = round_half_even (\<bar>x\<bar> / 2 powi (exponent \<bar>x\<bar> - 52))"

definition binary64 :: "real \<Rightarrow> real" where
  "binary64 x = sgn x * (of_int (significand x) * 2 powi (exponent \<bar>x\<bar> - 52))"

definition isinf :: "real \<Rightarrow> bool" where
  "isinf x = (exponent \<bar>x\<bar> = 1023 \<and> 2 ^ 53 \<le> significand x)"

text \<open>\<open>round(x, n)\<close> for a float \<open>x\<close> and the \<open>n = 3\<close> of the source: \<open>inf\<close> rounds to itself;
  else the exact value of the float is rounded to the nearest multiple of \<open>10\<^sup>-\<^sup>n\<close>, a tie
  to the even one, and the result is the float written with that decimal.\<close>

definition py_round :: "real \<Rightarrow> nat \<Rightarrow> real" where
  "py_round x n =
     (if isinf x then x else of_int (round_half_even (binary64 x * 10 ^ n)) / 10 ^ n)"

lemmas py_round_eval = py_round_def isinf_def binary64_def significand_def exponent_def
  exponent_up.simps exponent_down.simps round_half_even_def Let_def

text \<open>The three patterns that read the answer of the reasoning service:
  \<^verbatim>\<open>VERDICT:\s*(TRUE|FALSE|MIXED)\<close> with \<open>re.I\<close>,
  \<^verbatim>\<open>CONFIDENCE:\s*([0-9]*\.?[0-9]+)\<close>, and
  \<^verbatim>\<open>REASON:\s*(.+)\<close> with \<open>re.DOTALL\<close>.\<close>

definition verdict_pattern :: regex where
  "verdict_pattern = seqs [str_i ''VERDICT:'', Star space,
     Grp (alts [str_i ''TRUE'', str_i ''FALSE'', str_i ''MIXED''])]"

definition number_pattern :: regex where
  "number_pattern = seqs [Star digit, opt (lit CHR ''.''), plus digit]"

definition confidence_pattern :: regex where
  "confidence_pattern = seqs [str ''CONFIDENCE:'', Star space, Grp number_pattern]"

definition reason_pattern :: regex where
  "reason_pattern = seqs [str ''REASON:'', Star space, Grp (plus (Cls (\<lambda>c. True)))]"

text \<open>Lines 163 to 169: the three searches and the three defaults. The only step that
  can raise is \<open>float\<close>.\<close>

definition parse_output :: "string \<Rightarrow> error + string \<times> real \<times> string" where
  "parse_output output =
     (let v = search verdict_pattern output;
          c = search confidence_pattern output;
          r = search reason_pattern output;
          vd = (case v of Some m \<Rightarrow> lower (group1 output m) | None \<Rightarrow> ''unverified'')
      in case (case c of
                 Some m \<Rightarrow>
                   (case float_of (group1 output m) of
                      Some x \<Rightarrow> Inr x
                    | None \<Rightarrow> Inl (ValueError ''could not convert string to float''))
               | None \<Rightarrow> Inr 0.5) of
           Inl e \<Rightarrow> Inl e
         | Inr conf \<Rightarrow>
             Inr (vd, conf,
               case r of Some m \<Rightarrow> strip (group1 output m) | None \<Rightarrow> ''Analysis completed''))"

text \<open>\<open>verify_claim\<close> returns its result; the second component lists the prompts sent
  to the reasoning service, in order.\<close>

definition verify_claim :: "collaborators \<Rightarrow> string \<Rightarrow> VerificationResult \<times> prompt list" where
  "verify_claim C claim =
     (let ev = gather_evidence C claim;
          prompt = (claim, evidence_text ev);
          (answer, calls) =
            (case groq_client C of
               None \<Rightarrow> ((''unverified'', 0.3, ''Verification service unavailable''), [])
             | Some create \<Rightarrow>
                 (case create prompt of
                    Inl e \<Rightarrow> ((''unverified'', 0.3, ''Service error''), [prompt])
                  | Inr content \<Rightarrow>
                      (case parse_output (strip content) of
                         Inl e \<Rightarrow> ((''unverified'', 0.3, ''Service error''), [prompt])
                       | Inr parsed \<Rightarrow> (parsed, [prompt]))))
      in case answer of (vd, conf, reason) \<Rightarrow>
           (\<lparr>vr_claim = claim, verdict = vd, vr_confidence = py_round conf 3,
             rationale = reason, evidence = take 20 ev\<rparr>, calls))"

section \<open>The workflow\<close>

text \<open>\<open>src/graph/state.py\<close> and \<open>src/graph/workflow.py\<close>. The state is a dict with a fixed
  set of keys; a node returns a new dict.\<close>

record message =
  role :: string
  content :: string

record VerificationState =
  st_claim :: string
  user_id :: "string option"
  detection_result :: "DetectionResult option"
  verification_result :: "VerificationResult option"
  should_continue :: bool
  next_node :: "string option"
  messages :: "message list"
  verification_id :: "string option"
  timestamp :: "string option"
  st_search_queries :: "string list option"
  retrieved_evidence :: "EvidenceItem list option"
  evidence_analysis :: "(string \<times> string) list option"

text \<open>\<open>str(e)\<close>: the message of the exception.\<close>

fun str_of :: "error \<Rightarrow> string" where
  "str_of (ValueError m) = m"
| "str_of (TypeError m) = m"
| "str_of (AttributeError m) = m"
| "str_of (IndexError m) = m"
| "str_of (GraphRecursionError m) = m"
| "str_of (ServiceError m) = m"

definition set_detection_result :: "VerificationState \<Rightarrow> DetectionResult \<Rightarrow> VerificationState" where
  "set_detection_result state d =
     state\<lparr>detection_result := Some d, st_search_queries := Some (search_queries d)\<rparr>"

definition set_verification_result ::
  "VerificationState \<Rightarrow> VerificationResult \<Rightarrow> VerificationState" where
  "set_verification_result state v = state\<lparr>verification_result := Some v\<rparr>"

definition detect_claim :: "VerificationState \<Rightarrow> VerificationState" where
  "detect_claim state =
     (case detect (st_claim state) of
        Inr d \<Rightarrow>
          (set_detection_result state d)\<lparr>should_continue := True, next_node := Some ''verify''\<rparr>
      | Inl e \<Rightarrow>
          state\<lparr>should_continue := False, verification_result := None,
            messages := messages state
              @ [\<lparr>role = ''system'', content = ''Detection failed with error: '' @ str_of e\<rparr>]\<rparr>)"

text \<open>
  A Python call binds its arguments to the parameters of the function before the body
  runs. A keyword argument whose name is no parameter makes the call raise TypeError;
  so do too many positional arguments, a parameter given twice and a parameter left
  without a value. \<open>self\<close> is bound by the method access and is not listed.\<close>

datatype argument = Text string | Detection "DetectionResult option"

definition bind_arguments ::
  "string \<Rightarrow> string list \<Rightarrow> argument list \<Rightarrow> (string \<times> argument) list
     \<Rightarrow> error + (string \<times> argument) list" where
  "bind_arguments name params args kwargs =
     (if length params < length args
      then Inl (TypeError (name @ ''() takes '' @ str_nat (Suc (length params))
             @ '' positional arguments but '' @ str_nat (Suc (length args)) @ '' were given''))
      else
        (case find (\<lambda>(k, a). k \<notin> set params) kwargs of
           Some (k, a) \<Rightarrow>
             Inl (TypeError (name @ ''() got an unexpected keyword argument '' @ [CHR 0x27] @ k
               @ [CHR 0x27]))
         | None \<Rightarrow>
             (case find (\<lambda>(k, a). k \<in> set (take (length args) params)) kwargs of
                Some (k, a) \<Rightarrow>
                  Inl (TypeError (name @ ''() got multiple values for argument '' @ [CHR 0x27] @ k
                    @ [CHR 0x27]))
              | None \<Rightarrow>
                  (let bound = zip params args @ kwargs
                   in if list_all (\<lambda>p. p \<in> fst ` set bound) params then Inr bound
                      else Inl (TypeError (name @ ''() missing required positional arguments''))))))"

text \<open>\<open>def verify_claim(self, claim: str)\<close>, as the workflow calls it.\<close>

definition call_verify_claim ::
  "collaborators \<Rightarrow> argument list \<Rightarrow> (string \<times> argument) list
     \<Rightarrow> error + VerificationResult \<times> prompt list" where
  "call_verify_claim C args kwargs =
     (case bind_arguments ''VerifierAgent.verify_claim'' [''claim''] args kwargs of
        Inl e \<Rightarrow> Inl e
      | Inr bound \<Rightarrow>
          (case map_of bound ''claim'' of
             Some (Text claim) \<Rightarrow> Inr (verify_claim C claim)
           | _ \<Rightarrow> Inl (AttributeError ''object has no attribute lower'')))"

text \<open>The node \<open>verify_claim\<close> of the workflow (the name \<open>verify_claim\<close> is the agent's
  method above). With the state it returns the prompts sent to the reasoning service.\<close>

definition verify_claim_node ::
  "collaborators \<Rightarrow> VerificationState \<Rightarrow> VerificationState \<times> prompt list" where
  "verify_claim_node C state =
     (case call_verify_claim C [Text (st_claim state)]
             [(''detection'', Detection (detection_result state))] of
        Inr (v, calls) \<Rightarrow>
          ((set_verification_result state v)
             \<lparr>should_continue := False, retrieved_evidence := Some (evidence v)\<rparr>, calls)
      | Inl e \<Rightarrow>
          (state\<lparr>should_continue := False, verification_result := None,
             messages := messages state
               @ [\<lparr>role = ''system'', content = ''Verification failed with error: '' @ str_of e\<rparr>]\<rparr>,
           []))"

definition should_verify :: "VerificationState \<Rightarrow> string" where
  "should_verify state = (if detection_result state = None then ''detect'' else ''verify'')"

text \<open>
  The graph of \<open>create_verification_workflow\<close>: the nodes \<open>detect\<close> and \<open>verify\<close>, the entry
  point \<open>detect\<close>, after \<open>detect\<close> the conditional edge \<open>should_verify\<close> with its path map,
  and after \<open>verify\<close> the edge to \<open>END\<close>.

  \<open>invoke\<close> is LangGraph's: it runs the entry node on the input, then follows the edges,
  one node a step, until \<open>END\<close>; when the steps reach the recursion limit before \<open>END\<close> it
  raises GraphRecursionError. The limit is the library's default, 25, as the call passes
  no configuration. The annotation of \<open>messages\<close> is no callable, so the value a node
  returns for a key replaces the old one, for every key. The text of the exception is the
  library's. The trace lists the nodes run, in order.
\<close>

definition END :: string where
  "END = ''__end__''"

definition path_map :: "(string \<times> string) list" where
  "path_map = [(''detect'', ''detect''), (''verify'', ''verify'')]"

definition recursion_limit :: nat where
  "recursion_limit = 25"

definition recursion_message :: string where
  "recursion_message = ''Recursion limit of 25 reached without hitting a stop condition.''"

record run =
  outcome :: "error + VerificationState"
  trace :: "string list"
  reasoning_calls :: "prompt list"

fun invoke_from :: "collaborators \<Rightarrow> nat \<Rightarrow> string \<Rightarrow> VerificationState \<Rightarrow> run" where
  "invoke_from C 0 node state =
     \<lparr>outcome = Inl (GraphRecursionError recursion_message), trace = [], reasoning_calls = []\<rparr>"
| "invoke_from C (Suc n) node state =
     (if node = ''detect'' then
        (let state' = detect_claim state
         in case map_of path_map (should_verify state') of
              None \<Rightarrow> \<lparr>outcome = Inl (ValueError ''unknown branch''), trace = [node],
                        reasoning_calls = []\<rparr>
            | Some target \<Rightarrow>
                (let rest = invoke_from C n target state'
                 in rest\<lparr>trace := node # trace rest\<rparr>))
      else if node = ''verify'' then
        (let (state', calls) = verify_claim_node C state
         in \<lparr>outcome = Inr state', trace = [node], reasoning_calls = calls\<rparr>)
      else \<lparr>outcome = Inr state, trace = [], reasoning_calls = []\<rparr>)"

definition invoke :: "collaborators \<Rightarrow> VerificationState \<Rightarrow> run" where
  "invoke C state = invoke_from C recursion_limit ''detect'' state"

definition initial_state :: "string \<Rightarrow> string option \<Rightarrow> string option \<Rightarrow> VerificationState" where
  "initial_state claim uid vid =
     \<lparr>st_claim = claim, user_id = uid, detection_result = None, verification_result = None,
       should_continue = True, next_node = None, messages = [], verification_id = vid,
       timestamp = None, st_search_queries = None, retrieved_evidence = None,
       evidence_analysis = None\<rparr>"

text \<open>\<open>run_verification_workflow\<close>: \<open>Inl\<close> would be an exception that reaches the caller.\<close>

definition run_verification_workflow ::
  "collaborators \<Rightarrow> string \<Rightarrow> string option \<Rightarrow> string option \<Rightarrow> error + VerificationState" where
  "run_verification_workflow C claim uid vid =
     (let init = initial_state claim uid vid
      in case outcome (invoke C init) of
           Inr final_state \<Rightarrow> Inr final_state
         | Inl e \<Rightarrow>
             Inr (init\<lparr>verification_result := None, should_continue := False,
               messages := messages init
                 @ [\<lparr>role = ''system'',
                     content = ''Workflow execution failed with error: '' @ str_of e\<rparr>]\<rparr>))"

definition extract_verification_result :: "VerificationState \<Rightarrow> VerificationResult option" where
  "extract_verification_result state = verification_result state"

text \<open>Environments for the examples: no service answers and no API key is set; or the
  reasoning service answers every prompt with a given text.\<close>

definition no_services :: collaborators where
  "no_services = \<lparr>similarity_search_with_score = (\<lambda>query. Inl (ServiceError ''unavailable'')),
     fetch_recent = Inl (ServiceError ''unavailable''), groq_client = None\<rparr>"

definition answering :: "string \<Rightarrow> collaborators" where
  "answering reply = no_services\<lparr>groq_client := Some (\<lambda>prompt. Inr reply)\<rparr>"

text \<open>A pattern sets group 1 on every way to match when every path through it passes
  the group.\<close>

fun sets_group :: "regex \<Rightarrow> bool" where
  "sets_group (Grp a) = True"
| "sets_group (Seq a b) = (sets_group a \<or> sets_group b)"
| "sets_group (Alt a b) = (sets_group a \<and> sets_group b)"
| "sets_group r = False"

section \<open>Properties of the detector\<close>

lemma detect_fields:
  assumes "detect claim = Inr r"
  shows "8 \<le> length (strip claim)"
    and "dr_claim r = strip claim"
    and "domain r = detect_domain (lower (strip claim))"
    and "claim_type r = classify_claim (lower (strip claim))"
    and "entities r = extract_entities (strip claim)"
    and "dr_keywords r = extract_keywords (lower (strip claim))"
    and "structured_claim r = build_structured_claim (strip claim) (extract_entities (strip claim))"
    and "search_queries r = take 8 (deduplicate_queries
           (generate_search_queries (strip claim)
              (build_structured_claim (strip claim) (extract_entities (strip claim)))
              (extract_entities (strip claim)) (detect_domain (lower (strip claim)))
            @ generate_contextual_search_queries
                (build_structured_claim (strip claim) (extract_entities (strip claim)))
                (identify_supporting_evidence_types (lower (strip claim)))))"
    and "risk_score r = score_risk (strip claim) (classify_claim (lower (strip claim)))"
    and "confidence r = min 0.95
           (score_confidence (classify_claim (lower (strip claim)))
              (score_risk (strip claim) (classify_claim (lower (strip claim))))
              (length (extract_entities (strip claim)))
            + calculate_evidence_confidence (identify_supporting_evidence_types (lower (strip claim)))
                (extract_temporal_indicators (lower (strip claim))))"
    and "claim_complexity r = assess_claim_complexity (strip claim)"
    and "supporting_evidence_types r = identify_supporting_evidence_types (lower (strip claim))"
    and "temporal_indicators r = extract_temporal_indicators (lower (strip claim))"
    and "quantitative_elements r = extract_quantitative_elements (strip claim)"
  using assms by (auto simp: detect_def Let_def split: if_splits)

lemma detect_short: "length (strip claim) < 8 \<Longrightarrow>
    detect claim = Inl (ValueError ''Claim must be at least 8 characters long'')"
  by (simp add: detect_def Let_def)

lemma detect_accepts: "8 \<le> length (strip claim) \<Longrightarrow> \<exists>r. detect claim = Inr r"
  by (simp add: detect_def Let_def)

lemma clamp_bounds:
  fixes lo hi x :: real
  assumes "lo \<le> hi"
  shows "lo \<le> max lo (min hi x) \<and> max lo (min hi x) \<le> hi"
  using assms by (simp add: max_def min_def)

lemma score_risk_bounds: "0.1 \<le> score_risk c t \<and> score_risk c t \<le> 1.0"
  unfolding score_risk_def Let_def by (rule clamp_bounds) simp

lemma score_confidence_bounds: "0.35 \<le> score_confidence t k n \<and> score_confidence t k n \<le> 0.85"
  unfolding score_confidence_def Let_def by (rule clamp_bounds) simp

lemma evidence_confidence_bounds:
  "0 \<le> calculate_evidence_confidence ts ti \<and> calculate_evidence_confidence ts ti \<le> 0.25"
proof -
  define b1 :: real where "b1 =
    (if ''official'' \<in> set ts then 0.0 + 0.15
     else if ''statistical'' \<in> set ts then 0.0 + 0.10
     else if ''expert'' \<in> set ts then 0.0 + 0.08 else 0.0)"
  define b2 :: real where "b2 =
    (if length ts > 1 then b1 + 0.05 * (real (length ts) - 1) else b1)"
  define b3 :: real where "b3 =
    (if list_ex (\<lambda>indicator. indicator \<in> set (lookup TEMPORAL_INDICATORS ''immediate'')) ti
     then b2 + 0.08
     else if list_ex (\<lambda>indicator. indicator \<in> set (lookup TEMPORAL_INDICATORS ''short_term'')) ti
     then b2 + 0.04 else b2)"
  have eq: "calculate_evidence_confidence ts ti = min 0.25 b3"
    by (simp add: calculate_evidence_confidence_def Let_def b1_def b2_def b3_def)
  have p1: "0 \<le> b1" by (simp add: b1_def)
  have p2: "0 \<le> b2" using p1 by (simp add: b2_def)
  have p3: "0 \<le> b3" using p2 by (simp add: b3_def)
  have "0 \<le> min 0.25 b3" using p3 by (simp add: min_def)
  moreover have "min 0.25 b3 \<le> 0.25" by (rule min.cobounded1)
  ultimately show ?thesis by (simp only: eq)
qed

text \<open>
  Claim C5. Every result that \<open>DetectorAgent.detect\<close> produces has at most 8 search
  queries, 5 entities, 8 keywords, 5 quantitative elements, 3 temporal indicators and 3
  supporting evidence types; its risk score lies between 0.10 and 1.00 and its confidence
  between 0.35 and 0.95.
\<close>

theorem detect_bounds:
  assumes "detect claim = Inr r"
  shows "length (search_queries r) \<le> 8 \<and> length (entities r) \<le> 5
    \<and> length (dr_keywords r) \<le> 8 \<and> length (quantitative_elements r) \<le> 5
    \<and> length (temporal_indicators r) \<le> 3 \<and> length (supporting_evidence_types r) \<le> 3
    \<and> 0.10 \<le> risk_score r \<and> risk_score r \<le> 1.00
    \<and> 0.35 \<le> confidence r \<and> confidence r \<le> 0.95"
proof -
  note f = detect_fields [OF assms]
  have q: "length (search_queries r) \<le> 8" by (simp add: f(8))
  have e: "length (entities r) \<le> 5" by (simp add: f(5) extract_entities_def Let_def)
  have k: "length (dr_keywords r) \<le> 8" by (simp add: f(6) extract_keywords_def Let_def)
  have n: "length (quantitative_elements r) \<le> 5"
    by (simp add: f(14) extract_quantitative_elements_def)
  have t: "length (temporal_indicators r) \<le> 3"
    by (simp add: f(13) extract_temporal_indicators_def)
  have s: "length (supporting_evidence_types r) \<le> 3"
    by (simp add: f(12) identify_supporting_evidence_types_def)
  have rk: "0.10 \<le> risk_score r \<and> risk_score r \<le> 1.00"
    using score_risk_bounds [of "strip claim" "classify_claim (lower (strip claim))"]
    by (simp add: f(9))
  have c: "0.35 \<le> confidence r \<and> confidence r \<le> 0.95"
    using score_confidence_bounds [of "classify_claim (lower (strip claim))"
        "score_risk (strip claim) (classify_claim (lower (strip claim)))"
        "length (extract_entities (strip claim))"]
      evidence_confidence_bounds [of "identify_supporting_evidence_types (lower (strip claim))"
        "extract_temporal_indicators (lower (strip claim))"]
    by (simp add: f(10) min_def)
  from q e k n t s rk c show ?thesis by simp
qed

text \<open>The claim text of the example of the specification is accepted.\<close>

lemma airport_length: "length (strip ''Is the airport in Delhi really closed?'') = 38"
  by code_simp

theorem detect_bounds_witness:
  "detect ''Is the airport in Delhi really closed?''
     = Inr (projr (detect ''Is the airport in Delhi really closed?''))
   \<and> length (search_queries (projr (detect ''Is the airport in Delhi really closed?''))) \<le> 8
   \<and> 0.35 \<le> confidence (projr (detect ''Is the airport in Delhi really closed?''))
   \<and> risk_score (projr (detect ''Is the airport in Delhi really closed?'')) \<le> 1"
proof -
  have h: "detect ''Is the airport in Delhi really closed?''
      = Inr (projr (detect ''Is the airport in Delhi really closed?''))"
    by (simp add: detect_def Let_def airport_length)
  from detect_bounds [OF h] h show ?thesis by simp
qed

section \<open>Properties of the workflow and of the verifier without a client\<close>

lemma py_round_default: "py_round 0.3 3 = 0.3" "py_round 0.5 3 = 0.5"
  by (simp_all add: py_round_eval)

lemma call_verify_claim_fails:
  "call_verify_claim C [Text c] [(''detection'', Detection d)]
     = Inl (TypeError (''VerifierAgent.verify_claim() got an unexpected keyword argument ''
         @ [CHR 0x27] @ ''detection'' @ [CHR 0x27]))"
  by (simp add: call_verify_claim_def bind_arguments_def)

lemma verify_claim_node_fails:
  "verify_claim_node C state =
     (state\<lparr>should_continue := False, verification_result := None,
        messages := messages state
          @ [\<lparr>role = ''system'', content = ''Verification failed with error: ''
               @ ''VerifierAgent.verify_claim() got an unexpected keyword argument ''
               @ [CHR 0x27] @ ''detection'' @ [CHR 0x27]\<rparr>]\<rparr>, [])"
  by (simp add: verify_claim_node_def call_verify_claim_fails)

lemma detect_claim_fail:
  assumes "detect (st_claim state) = Inl e"
  shows "detect_claim state = state\<lparr>should_continue := False, verification_result := None,
     messages := messages state
       @ [\<lparr>role = ''system'', content = ''Detection failed with error: '' @ str_of e\<rparr>]\<rparr>"
  using assms by (simp add: detect_claim_def)

lemma detect_claim_ok:
  assumes "detect (st_claim state) = Inr d"
  shows "detect_claim state = state\<lparr>detection_result := Some d,
     st_search_queries := Some (search_queries d), should_continue := True,
     next_node := Some ''verify''\<rparr>"
  using assms by (simp add: detect_claim_def set_detection_result_def)

lemma detect_loop:
  assumes "detect (st_claim state) = Inl e" and "detection_result state = None"
  shows "outcome (invoke_from C n ''detect'' state) = Inl (GraphRecursionError recursion_message)
    \<and> trace (invoke_from C n ''detect'' state) = replicate n ''detect''
    \<and> reasoning_calls (invoke_from C n ''detect'' state) = []"
  using assms
proof (induction n arbitrary: state)
  case 0
  show ?case by simp
next
  case (Suc n)
  let ?s = "detect_claim state"
  have s: "st_claim ?s = st_claim state" "detection_result ?s = None"
    using Suc.prems by (simp_all add: detect_claim_fail)
  have t: "map_of path_map (should_verify ?s) = Some ''detect''"
    using s by (simp add: should_verify_def path_map_def)
  from Suc.IH [of ?s] Suc.prems s
  have ih: "outcome (invoke_from C n ''detect'' ?s) = Inl (GraphRecursionError recursion_message)
    \<and> trace (invoke_from C n ''detect'' ?s) = replicate n ''detect''
    \<and> reasoning_calls (invoke_from C n ''detect'' ?s) = []"
    by simp
  show ?case using t ih by (simp add: Let_def)
qed

lemma detect_then_verify:
  assumes "detect (st_claim state) = Inr d"
  shows "invoke_from C (Suc (Suc n)) ''detect'' state =
    \<lparr>outcome = Inr (fst (verify_claim_node C (detect_claim state))),
      trace = [''detect'', ''verify''], reasoning_calls = []\<rparr>"
proof -
  have t: "map_of path_map (should_verify (detect_claim state)) = Some ''verify''"
    using assms by (simp add: detect_claim_ok should_verify_def path_map_def)
  show ?thesis using t by (simp add: Let_def verify_claim_node_fails)
qed

lemma invoke_short:
  assumes "length (strip claim) < 8"
  shows "outcome (invoke C (initial_state claim uid vid)) = Inl (GraphRecursionError recursion_message)"
    and "trace (invoke C (initial_state claim uid vid)) = replicate recursion_limit ''detect''"
    and "reasoning_calls (invoke C (initial_state claim uid vid)) = []"
  using detect_loop [of "initial_state claim uid vid"
      "ValueError ''Claim must be at least 8 characters long''" C recursion_limit]
    detect_short [OF assms]
  by (simp_all add: invoke_def initial_state_def)

lemma invoke_accepted:
  assumes "detect claim = Inr d"
  shows "invoke C (initial_state claim uid vid) =
    \<lparr>outcome = Inr ((initial_state claim uid vid)\<lparr>detection_result := Some d,
         st_search_queries := Some (search_queries d), should_continue := False,
         next_node := Some ''verify'', verification_result := None,
         messages := [\<lparr>role = ''system'', content = ''Verification failed with error: ''
               @ ''VerifierAgent.verify_claim() got an unexpected keyword argument ''
               @ [CHR 0x27] @ ''detection'' @ [CHR 0x27]\<rparr>]\<rparr>),
      trace = [''detect'', ''verify''], reasoning_calls = []\<rparr>"
proof -
  have d: "detect (st_claim (initial_state claim uid vid)) = Inr d"
    using assms by (simp add: initial_state_def)
  have n: "recursion_limit = Suc (Suc 23)" by (simp add: recursion_limit_def)
  have "invoke C (initial_state claim uid vid) =
      \<lparr>outcome = Inr (fst (verify_claim_node C (detect_claim (initial_state claim uid vid)))),
        trace = [''detect'', ''verify''], reasoning_calls = []\<rparr>"
    unfolding invoke_def n by (rule detect_then_verify [OF d])
  also have "fst (verify_claim_node C (detect_claim (initial_state claim uid vid))) =
      (initial_state claim uid vid)\<lparr>detection_result := Some d,
         st_search_queries := Some (search_queries d), should_continue := False,
         next_node := Some ''verify'', verification_result := None,
         messages := [\<lparr>role = ''system'', content = ''Verification failed with error: ''
               @ ''VerifierAgent.verify_claim() got an unexpected keyword argument ''
               @ [CHR 0x27] @ ''detection'' @ [CHR 0x27]\<rparr>]\<rparr>"
    unfolding detect_claim_ok [OF d] verify_claim_node_fails
    by (simp add: initial_state_def)
  finally show ?thesis .
qed

lemma detect_cases:
  "(length (strip claim) < 8 \<and> detect claim = Inl (ValueError ''Claim must be at least 8 characters long''))
   \<or> (\<exists>d. detect claim = Inr d)"
  by (simp add: detect_def Let_def)

lemma fire_length: "length (strip ''  Fire!  '') = 5"
  by code_simp

lemma run_short:
  assumes "length (strip claim) < 8"
  shows "run_verification_workflow C claim uid vid =
    Inr ((initial_state claim uid vid)\<lparr>verification_result := None, should_continue := False,
      messages := [\<lparr>role = ''system'',
        content = ''Workflow execution failed with error: '' @ recursion_message\<rparr>]\<rparr>)"
  by (simp add: run_verification_workflow_def Let_def invoke_short(1) [OF assms])
    (simp add: initial_state_def)

lemma run_accepted:
  assumes "detect claim = Inr d"
  shows "run_verification_workflow C claim uid vid =
    Inr ((initial_state claim uid vid)\<lparr>detection_result := Some d,
         st_search_queries := Some (search_queries d), should_continue := False,
         next_node := Some ''verify'', verification_result := None,
         messages := [\<lparr>role = ''system'', content = ''Verification failed with error: ''
               @ ''VerifierAgent.verify_claim() got an unexpected keyword argument ''
               @ [CHR 0x27] @ ''detection'' @ [CHR 0x27]\<rparr>]\<rparr>)"
  by (simp add: run_verification_workflow_def Let_def invoke_accepted [OF assms])

text \<open>
  Claim C1. The workflow's verify node passes the keyword argument \<open>detection\<close> to
  \<open>VerifierAgent.verify_claim\<close>, whose parameters are \<open>self\<close> and \<open>claim\<close>. The call raises
  TypeError for every state, so the node takes its exception branch: it returns the state
  with no verification result and one more system message, which starts with
  "Verification failed with error". No run of \<open>run_verification_workflow\<close> has a
  verification result; a run whose detect stage succeeds runs the nodes detect and verify
  and ends with the detection result and that message.
\<close>

theorem verify_node_always_fails:
  "call_verify_claim C [Text (st_claim state)] [(''detection'', Detection (detection_result state))]
     = Inl (TypeError (''VerifierAgent.verify_claim() got an unexpected keyword argument ''
         @ [CHR 0x27] @ ''detection'' @ [CHR 0x27]))
   \<and> verification_result (fst (verify_claim_node C state)) = None
   \<and> messages (fst (verify_claim_node C state)) = messages state
        @ [\<lparr>role = ''system'', content = ''Verification failed with error: ''
             @ ''VerifierAgent.verify_claim() got an unexpected keyword argument ''
             @ [CHR 0x27] @ ''detection'' @ [CHR 0x27]\<rparr>]
   \<and> (\<exists>st. run_verification_workflow C claim uid vid = Inr st \<and> verification_result st = None)
   \<and> (\<forall>d. detect claim = Inr d \<longrightarrow>
        trace (invoke C (initial_state claim uid vid)) = [''detect'', ''verify'']
        \<and> (\<exists>st. run_verification_workflow C claim uid vid = Inr st
              \<and> detection_result st = Some d \<and> verification_result st = None
              \<and> messages st = [\<lparr>role = ''system'', content = ''Verification failed with error: ''
                   @ ''VerifierAgent.verify_claim() got an unexpected keyword argument ''
                   @ [CHR 0x27] @ ''detection'' @ [CHR 0x27]\<rparr>]))"
proof -
  have a: "call_verify_claim C [Text (st_claim state)]
      [(''detection'', Detection (detection_result state))]
     = Inl (TypeError (''VerifierAgent.verify_claim() got an unexpected keyword argument ''
         @ [CHR 0x27] @ ''detection'' @ [CHR 0x27]))"
    by (rule call_verify_claim_fails)
  have b: "verification_result (fst (verify_claim_node C state)) = None"
    by (simp add: verify_claim_node_fails)
  have c: "messages (fst (verify_claim_node C state)) = messages state
        @ [\<lparr>role = ''system'', content = ''Verification failed with error: ''
             @ ''VerifierAgent.verify_claim() got an unexpected keyword argument ''
             @ [CHR 0x27] @ ''detection'' @ [CHR 0x27]\<rparr>]"
    by (simp add: verify_claim_node_fails)
  have d: "\<exists>st. run_verification_workflow C claim uid vid = Inr st \<and> verification_result st = None"
  proof -
    from detect_cases [of claim] show ?thesis
    proof
      assume "length (strip claim) < 8
        \<and> detect claim = Inl (ValueError ''Claim must be at least 8 characters long'')"
      then have "length (strip claim) < 8" by simp
      from run_short [OF this] show ?thesis by simp
    next
      assume "\<exists>d. detect claim = Inr d"
      then obtain d where "detect claim = Inr d" by blast
      from run_accepted [OF this] show ?thesis by simp
    qed
  qed
  have e: "\<forall>d. detect claim = Inr d \<longrightarrow>
        trace (invoke C (initial_state claim uid vid)) = [''detect'', ''verify'']
        \<and> (\<exists>st. run_verification_workflow C claim uid vid = Inr st
              \<and> detection_result st = Some d \<and> verification_result st = None
              \<and> messages st = [\<lparr>role = ''system'', content = ''Verification failed with error: ''
                   @ ''VerifierAgent.verify_claim() got an unexpected keyword argument ''
                   @ [CHR 0x27] @ ''detection'' @ [CHR 0x27]\<rparr>])"
  proof (intro allI impI)
    fix d assume h: "detect claim = Inr d"
    show "trace (invoke C (initial_state claim uid vid)) = [''detect'', ''verify'']
        \<and> (\<exists>st. run_verification_workflow C claim uid vid = Inr st
              \<and> detection_result st = Some d \<and> verification_result st = None
              \<and> messages st = [\<lparr>role = ''system'', content = ''Verification failed with error: ''
                   @ ''VerifierAgent.verify_claim() got an unexpected keyword argument ''
                   @ [CHR 0x27] @ ''detection'' @ [CHR 0x27]\<rparr>])"
      by (simp add: invoke_accepted [OF h] run_accepted [OF h])
  qed
  from a b c d e show ?thesis by blast
qed

theorem verify_node_always_fails_witness:
  "\<exists>st. run_verification_workflow no_services ''Is the airport in Delhi really closed?'' None None
          = Inr st
     \<and> detection_result st = Some (projr (detect ''Is the airport in Delhi really closed?''))
     \<and> verification_result st = None
     \<and> map role (messages st) = [''system'']"
proof -
  have h: "detect ''Is the airport in Delhi really closed?''
      = Inr (projr (detect ''Is the airport in Delhi really closed?''))"
    by (simp add: detect_def Let_def airport_length)
  from verify_node_always_fails [of no_services "initial_state [] None None"
      "''Is the airport in Delhi really closed?''" None None] h
  have "\<exists>st. run_verification_workflow no_services ''Is the airport in Delhi really closed?''
            None None = Inr st
     \<and> detection_result st = Some (projr (detect ''Is the airport in Delhi really closed?''))
     \<and> verification_result st = None
     \<and> messages st = [\<lparr>role = ''system'', content = ''Verification failed with error: ''
                   @ ''VerifierAgent.verify_claim() got an unexpected keyword argument ''
                   @ [CHR 0x27] @ ''detection'' @ [CHR 0x27]\<rparr>]"
    by blast
  then show ?thesis by auto
qed

text \<open>
  Claim C2. For every claim text, user id and verification id,
  \<open>run_verification_workflow\<close> returns a state and raises nothing: the state is the one the
  graph ended in, or, when the graph execution raised, the initial state with a system
  message that starts with "Workflow execution failed". The state is for the claim, user
  id and verification id of the call.
\<close>

theorem workflow_never_raises:
  "\<exists>st. run_verification_workflow C claim uid vid = Inr st
     \<and> st_claim st = claim \<and> user_id st = uid \<and> verification_id st = vid
     \<and> (\<forall>e. outcome (invoke C (initial_state claim uid vid)) = Inl e \<longrightarrow>
          verification_result st = None \<and> \<not> should_continue st
          \<and> messages st = [\<lparr>role = ''system'',
               content = ''Workflow execution failed with error: '' @ str_of e\<rparr>])
     \<and> (\<forall>final_state. outcome (invoke C (initial_state claim uid vid)) = Inr final_state \<longrightarrow>
          st = final_state)"
proof -
  from detect_cases [of claim] show ?thesis
  proof
    assume "length (strip claim) < 8
      \<and> detect claim = Inl (ValueError ''Claim must be at least 8 characters long'')"
    then have short: "length (strip claim) < 8" by simp
    show ?thesis
      unfolding run_short [OF short, of C uid vid] invoke_short(1) [OF short, of C uid vid]
      by (simp add: initial_state_def)
  next
    assume "\<exists>d. detect claim = Inr d"
    then obtain d where d: "detect claim = Inr d" by blast
    show ?thesis
      unfolding run_accepted [OF d, of C uid vid] invoke_accepted [OF d, of C uid vid]
      by (simp add: initial_state_def)
  qed
qed

theorem workflow_never_raises_witness:
  "\<exists>st. run_verification_workflow no_services ''  Fire!  '' None None = Inr st
     \<and> st_claim st = ''  Fire!  ''
     \<and> messages st = [\<lparr>role = ''system'',
          content = ''Workflow execution failed with error: '' @ recursion_message\<rparr>]"
proof -
  have short: "length (strip ''  Fire!  '') < 8" by (simp add: fire_length)
  from workflow_never_raises [of no_services "''  Fire!  ''" None None]
  obtain st where st: "run_verification_workflow no_services ''  Fire!  '' None None = Inr st"
    "st_claim st = ''  Fire!  ''"
    "\<forall>e. outcome (invoke no_services (initial_state ''  Fire!  '' None None)) = Inl e \<longrightarrow>
          verification_result st = None \<and> \<not> should_continue st
          \<and> messages st = [\<lparr>role = ''system'',
               content = ''Workflow execution failed with error: '' @ str_of e\<rparr>]"
    by blast
  from st(3) invoke_short(1) [OF short, of no_services None None]
  have "messages st = [\<lparr>role = ''system'',
          content = ''Workflow execution failed with error: '' @ recursion_message\<rparr>]"
    by simp
  with st(1,2) show ?thesis by blast
qed

text \<open>
  Claim C3, at the claim text \<open>"  Fire!  "\<close>, which the detector rejects. The detect node
  appends the detection-failure message and clears \<open>should_continue\<close>, but the conditional
  edge sends the state back to detect; the graph runs into the recursion limit, and the
  state the caller receives has the workflow-failure message only.
\<close>

theorem detection_failure_message_lost:
  "messages (detect_claim (initial_state ''  Fire!  '' None None))
     = [\<lparr>role = ''system'',
         content = ''Detection failed with error: Claim must be at least 8 characters long''\<rparr>]
   \<and> \<not> should_continue (detect_claim (initial_state ''  Fire!  '' None None))
   \<and> should_verify (detect_claim (initial_state ''  Fire!  '' None None)) = ''detect''
   \<and> (\<exists>st. run_verification_workflow no_services ''  Fire!  '' None None = Inr st
        \<and> messages st = [\<lparr>role = ''system'',
             content = ''Workflow execution failed with error: '' @ recursion_message\<rparr>]
        \<and> \<lparr>role = ''system'',
             content = ''Detection failed with error: Claim must be at least 8 characters long''\<rparr>
           \<notin> set (messages st))"
proof -
  have short: "length (strip ''  Fire!  '') < 8" by (simp add: fire_length)
  have d: "detect (st_claim (initial_state ''  Fire!  '' None None))
      = Inl (ValueError ''Claim must be at least 8 characters long'')"
    using detect_short [OF short] by (simp add: initial_state_def)
  have n: "detect_claim (initial_state ''  Fire!  '' None None)
      = (initial_state ''  Fire!  '' None None)\<lparr>should_continue := False,
          verification_result := None,
          messages := messages (initial_state ''  Fire!  '' None None)
            @ [\<lparr>role = ''system'', content = ''Detection failed with error: ''
                 @ str_of (ValueError ''Claim must be at least 8 characters long'')\<rparr>]\<rparr>"
    by (rule detect_claim_fail [OF d])
  have a: "messages (detect_claim (initial_state ''  Fire!  '' None None))
     = [\<lparr>role = ''system'',
         content = ''Detection failed with error: Claim must be at least 8 characters long''\<rparr>]"
    unfolding n by (simp add: initial_state_def)
  have b: "\<not> should_continue (detect_claim (initial_state ''  Fire!  '' None None))"
    unfolding n by simp
  have c: "should_verify (detect_claim (initial_state ''  Fire!  '' None None)) = ''detect''"
    unfolding n by (simp add: should_verify_def initial_state_def)
  have e: "\<exists>st. run_verification_workflow no_services ''  Fire!  '' None None = Inr st
        \<and> messages st = [\<lparr>role = ''system'',
             content = ''Workflow execution failed with error: '' @ recursion_message\<rparr>]
        \<and> \<lparr>role = ''system'',
             content = ''Detection failed with error: Claim must be at least 8 characters long''\<rparr>
           \<notin> set (messages st)"
    unfolding run_short [OF short] by simp
  from a b c e show ?thesis by blast
qed

text \<open>
  Claim C4. A claim whose stripped text has fewer than 8 characters makes
  \<open>DetectorAgent.detect\<close> raise ValueError with the text "Claim must be at least 8 characters
  long"; the workflow then never runs the verify node, sends nothing to the reasoning
  service, and returns a state without detection result, verification result or evidence.
\<close>

theorem short_claim_rejected:
  assumes "length (strip claim) < 8"
  shows "detect claim = Inl (ValueError ''Claim must be at least 8 characters long'')
    \<and> ''verify'' \<notin> set (trace (invoke C (initial_state claim uid vid)))
    \<and> reasoning_calls (invoke C (initial_state claim uid vid)) = []
    \<and> (\<exists>st. run_verification_workflow C claim uid vid = Inr st
          \<and> detection_result st = None \<and> verification_result st = None
          \<and> retrieved_evidence st = None)"
proof -
  have a: "detect claim = Inl (ValueError ''Claim must be at least 8 characters long'')"
    by (rule detect_short [OF assms])
  have b: "''verify'' \<notin> set (trace (invoke C (initial_state claim uid vid)))"
    by (simp add: invoke_short(2) [OF assms])
  have c: "reasoning_calls (invoke C (initial_state claim uid vid)) = []"
    by (rule invoke_short(3) [OF assms])
  have d: "\<exists>st. run_verification_workflow C claim uid vid = Inr st
          \<and> detection_result st = None \<and> verification_result st = None
          \<and> retrieved_evidence st = None"
    unfolding run_short [OF assms] by (simp add: initial_state_def)
  from a b c d show ?thesis by blast
qed

theorem short_claim_rejected_witness:
  "length (strip ''  Fire!  '') < 8
   \<and> detect ''  Fire!  '' = Inl (ValueError ''Claim must be at least 8 characters long'')
   \<and> ''verify'' \<notin> set (trace (invoke no_services (initial_state ''  Fire!  '' None None)))"
proof -
  have short: "length (strip ''  Fire!  '') < 8" by (simp add: fire_length)
  from short_claim_rejected [OF short, of no_services None None] short show ?thesis by blast
qed

text \<open>
  Claim C7. When \<open>groq_client\<close> is None, \<open>VerifierAgent.verify_claim\<close> returns the verdict
  "unverified", the confidence 0.3 and the rationale "Verification service unavailable"
  for every claim, and sends no prompt to the reasoning service.
\<close>

theorem no_client_unverified:
  assumes "groq_client C = None"
  shows "verify_claim C claim =
    (\<lparr>vr_claim = claim, verdict = ''unverified'', vr_confidence = 0.3,
       rationale = ''Verification service unavailable'',
       evidence = take 20 (gather_evidence C claim)\<rparr>, [])"
  by (simp add: verify_claim_def Let_def assms py_round_default)

theorem no_client_unverified_witness:
  "groq_client no_services = None
   \<and> verdict (fst (verify_claim no_services ''Is the airport in Delhi really closed?''))
       = ''unverified''
   \<and> vr_confidence (fst (verify_claim no_services ''Is the airport in Delhi really closed?''))
       = 0.3
   \<and> rationale (fst (verify_claim no_services ''Is the airport in Delhi really closed?''))
       = ''Verification service unavailable''
   \<and> snd (verify_claim no_services ''Is the airport in Delhi really closed?'') = []"
proof -
  have h: "groq_client no_services = None" by (simp add: no_services_def)
  from no_client_unverified [OF h, of "''Is the airport in Delhi really closed?''"] h
  show ?thesis by simp
qed

section \<open>The examples and the complexity classes of the detector\<close>

lemma airport_strip:
  "strip ''Is the airport in Delhi really closed?'' = ''Is the airport in Delhi really closed?''"
  by code_simp

lemma airport_lower:
  "lower ''Is the airport in Delhi really closed?'' = ''is the airport in delhi really closed?''"
  by code_simp

lemma airport_accepted:
  "detect ''Is the airport in Delhi really closed?''
     = Inr (projr (detect ''Is the airport in Delhi really closed?''))"
  by (simp add: detect_def Let_def airport_length)

lemma airport_type: "classify_claim ''is the airport in delhi really closed?'' = ''question''"
  by code_simp

lemma airport_domain: "detect_domain ''is the airport in delhi really closed?'' = ''travel''"
  by code_simp

lemma airport_phrase: "\<not> contains ''is the airport in delhi really closed?'' ''airport closed''"
  by code_simp

lemma airport_action: "extract_action ''is the airport in delhi really closed?'' = Some ''closed''"
  by code_simp

lemma action_of_structured:
  "action (build_structured_claim c ents) = extract_action (lower c)"
  by (simp add: build_structured_claim_def Let_def)

text \<open>
  Claim C10, as amended. For the claim text "Is the airport in Delhi really closed?" the
  detector returns the claim type "question", the domain "travel" and the action
  "closed": the phrase "airport closed" does not occur in the text as one piece, so the
  action comes from the single-word pattern.
\<close>

theorem airport_example:
  "\<exists>r. detect ''Is the airport in Delhi really closed?'' = Inr r
     \<and> claim_type r = ''question'' \<and> domain r = ''travel''
     \<and> action (structured_claim r) = Some ''closed''"
proof -
  note f = detect_fields [OF airport_accepted]
  have t: "claim_type (projr (detect ''Is the airport in Delhi really closed?'')) = ''question''"
    by (simp only: f(4) airport_strip airport_lower airport_type)
  have d: "domain (projr (detect ''Is the airport in Delhi really closed?'')) = ''travel''"
    by (simp only: f(3) airport_strip airport_lower airport_domain)
  have a: "action (structured_claim (projr (detect ''Is the airport in Delhi really closed?'')))
      = Some ''closed''"
    by (simp only: f(7) action_of_structured airport_strip airport_lower airport_action)
  from airport_accepted t d a show ?thesis by blast
qed

text \<open>Claim C10 as stated, with the action "airport closed", does not hold.\<close>

theorem airport_action_counterexample:
  "\<not> (\<exists>r. detect ''Is the airport in Delhi really closed?'' = Inr r
     \<and> claim_type r = ''question'' \<and> domain r = ''travel''
     \<and> action (structured_claim r) = Some ''airport closed'')"
proof
  assume "\<exists>r. detect ''Is the airport in Delhi really closed?'' = Inr r
     \<and> claim_type r = ''question'' \<and> domain r = ''travel''
     \<and> action (structured_claim r) = Some ''airport closed''"
  then obtain r where r: "detect ''Is the airport in Delhi really closed?'' = Inr r"
    and a: "action (structured_claim r) = Some ''airport closed''" by blast
  note f = detect_fields [OF r]
  have "action (structured_claim r) = Some ''closed''"
    by (simp only: f(7) action_of_structured airport_strip airport_lower airport_action)
  with a show False by simp
qed

lemma pets_length: "length (strip ''Cats and dogs are pets'') = 22"
  by code_simp

lemma pets_strip: "strip ''Cats and dogs are pets'' = ''Cats and dogs are pets''"
  by code_simp

lemma pets_accepted:
  "detect ''Cats and dogs are pets'' = Inr (projr (detect ''Cats and dogs are pets''))"
  by (simp add: detect_def Let_def pets_length)

lemma pets_simple: "assess_claim_complexity ''Cats and dogs are pets'' = ''simple''"
  by code_simp

lemma pets_conjunction: "search conjunction_pattern (lower ''Cats and dogs are pets'') = Some (5, 8, None)"
  by code_simp

text \<open>
  Claim C9 as stated does not hold: "Cats and dogs are pets" has a conjunction and is
  classified as simple.
\<close>

theorem complexity_conjunction_counterexample:
  "\<exists>r. detect ''Cats and dogs are pets'' = Inr r
     \<and> claim_complexity r = ''simple''
     \<and> search conjunction_pattern (lower (dr_claim r)) \<noteq> None"
proof -
  note f = detect_fields [OF pets_accepted]
  have a: "claim_complexity (projr (detect ''Cats and dogs are pets'')) = ''simple''"
    by (simp only: f(11) pets_strip pets_simple)
  have b: "search conjunction_pattern (lower (dr_claim (projr (detect ''Cats and dogs are pets''))))
      \<noteq> None"
    by (simp only: f(2) pets_strip pets_conjunction) simp
  from pets_accepted a b show ?thesis by blast
qed

lemma three_way:
  assumes "x = (if A then ''simple'' else if B then ''moderate'' else ''complex'')"
  shows "(x = ''simple'' \<longleftrightarrow> A) \<and> (x = ''moderate'' \<longleftrightarrow> \<not> A \<and> B)
    \<and> (x = ''complex'' \<longleftrightarrow> \<not> A \<and> \<not> B)"
  using assms by auto

text \<open>
  Claim C9, as amended. For every accepted claim the complexity is "simple" exactly when
  the claim has at most 15 words and at most 2 entities, no multi-clause signal and no
  quantitative element (a conjunction does not matter here); it is "moderate" exactly
  when it is not simple and has at most 40 words, at most 4 entities and no conjunction;
  it is "complex" otherwise.
\<close>

theorem complexity_classification:
  assumes "detect claim = Inr r"
  shows "(claim_complexity r = ''simple'' \<longleftrightarrow>
            length (split (dr_claim r)) \<le> 15 \<and> length (entities r) \<le> 2
            \<and> search clause_pattern (dr_claim r) = None \<and> quantitative_elements r = [])
    \<and> (claim_complexity r = ''moderate'' \<longleftrightarrow>
            \<not> (length (split (dr_claim r)) \<le> 15 \<and> length (entities r) \<le> 2
               \<and> search clause_pattern (dr_claim r) = None \<and> quantitative_elements r = [])
            \<and> length (split (dr_claim r)) \<le> 40 \<and> length (entities r) \<le> 4
            \<and> search conjunction_pattern (lower (dr_claim r)) = None)
    \<and> (claim_complexity r = ''complex'' \<longleftrightarrow>
            \<not> (length (split (dr_claim r)) \<le> 15 \<and> length (entities r) \<le> 2
               \<and> search clause_pattern (dr_claim r) = None \<and> quantitative_elements r = [])
            \<and> \<not> (length (split (dr_claim r)) \<le> 40 \<and> length (entities r) \<le> 4
               \<and> search conjunction_pattern (lower (dr_claim r)) = None))"
proof -
  note f = detect_fields [OF assms]
  have c: "assess_claim_complexity (strip claim) =
      (if length (split (strip claim)) \<le> 15 \<and> length (extract_entities (strip claim)) \<le> 2
          \<and> search clause_pattern (strip claim) = None
          \<and> extract_quantitative_elements (strip claim) = []
       then ''simple''
       else if length (split (strip claim)) \<le> 40 \<and> length (extract_entities (strip claim)) \<le> 4
          \<and> search conjunction_pattern (lower (strip claim)) = None
       then ''moderate'' else ''complex'')"
    unfolding assess_claim_complexity_def Let_def by (simp only: not_not)
  show ?thesis
    unfolding f(2) f(5) f(11) f(14)
    by (rule three_way [OF c])
qed

theorem complexity_classification_witness:
  "detect ''Is the airport in Delhi really closed?''
     = Inr (projr (detect ''Is the airport in Delhi really closed?''))
   \<and> claim_complexity (projr (detect ''Is the airport in Delhi really closed?'')) = ''simple''
   \<and> length (split (dr_claim (projr (detect ''Is the airport in Delhi really closed?'')))) \<le> 15
   \<and> quantitative_elements (projr (detect ''Is the airport in Delhi really closed?'')) = []"
proof -
  note f = detect_fields [OF airport_accepted]
  have s: "assess_claim_complexity ''Is the airport in Delhi really closed?'' = ''simple''"
    by code_simp
  have a: "claim_complexity (projr (detect ''Is the airport in Delhi really closed?'')) = ''simple''"
    by (simp only: f(11) airport_strip s)
  from complexity_classification [OF airport_accepted] a airport_accepted
  show ?thesis by simp
qed

section \<open>Properties of the matcher\<close>

lemma ms_Star_iff:
  "st' \<in> set (ms (Star a) s st) \<longleftrightarrow>
     st' = st \<or> (\<exists>st1 \<in> set (ms a s st). fst st < fst st1 \<and> fst st1 \<le> length s
        \<and> st' \<in> set (ms (Star a) s st1))"
  by (subst ms.simps(6)) auto

lemma ms_keeps_group:
  "st' \<in> set (ms r s st) \<Longrightarrow> snd st \<noteq> None \<Longrightarrow> snd st' \<noteq> None"
proof (induction r s st arbitrary: st' rule: ms.induct)
  case (4 a b s st)
  from "4.prems"(1) obtain st1 where st1: "st1 \<in> set (ms a s st)" "st' \<in> set (ms b s st1)"
    by auto
  from "4.IH"(1) [OF st1(1) "4.prems"(2)] have "snd st1 \<noteq> None" .
  from "4.IH"(2) [OF st1(1) st1(2) this] show ?case .
next
  case (6 a s st)
  from "6.prems"(1) consider "st' = st"
    | st1 where "st1 \<in> set (ms a s st)" "fst st < fst st1 \<and> fst st1 \<le> length s"
        "st' \<in> set (ms (Star a) s st1)"
    by (subst (asm) ms_Star_iff) blast
  then show ?case
  proof cases
    case 1
    with "6.prems"(2) show ?thesis by simp
  next
    case 2
    from "6.IH"(1) [OF 2(1) "6.prems"(2)] have g: "snd st1 \<noteq> None" .
    have m: "st1 \<in> set (filter (\<lambda>st'. fst st < fst st' \<and> fst st' \<le> length s) (ms a s st))"
      using 2(1,2) by simp
    from "6.IH"(2) [OF m 2(3) g] show ?thesis .
  qed
qed (auto split: if_splits)

lemma ms_sets_group:
  "sets_group r \<Longrightarrow> st' \<in> set (ms r s st) \<Longrightarrow> snd st' \<noteq> None"
proof (induction r s st arbitrary: st' rule: ms.induct)
  case (4 a b s st)
  from "4.prems"(2) obtain st1 where st1: "st1 \<in> set (ms a s st)" "st' \<in> set (ms b s st1)"
    by auto
  show ?case
  proof (cases "sets_group b")
    case True
    from "4.IH"(2) [OF st1(1) True st1(2)] show ?thesis .
  next
    case False
    with "4.prems"(1) have "sets_group a" by simp
    from "4.IH"(1) [OF this st1(1)] have "snd st1 \<noteq> None" .
    from ms_keeps_group [OF st1(2) this] show ?thesis .
  qed
qed (auto split: if_splits)

lemma scan_first:
  "scan r s i n = Some m \<Longrightarrow> (fst (snd m), snd (snd m)) \<in> set (ms r s (fst m, None))"
proof (induction n arbitrary: i)
  case 0
  then show ?case by simp
next
  case (Suc n)
  show ?case
  proof (cases "ms r s (i, None)")
    case Nil
    with Suc.prems have "scan r s (Suc i) n = Some m" by simp
    from Suc.IH [OF this] show ?thesis .
  next
    case (Cons st sts)
    with Suc.prems have "m = (i, fst st, snd st)" by simp
    with Cons show ?thesis by simp
  qed
qed

lemma search_first:
  "search r s = Some m \<Longrightarrow> (fst (snd m), snd (snd m)) \<in> set (ms r s (fst m, None))"
  unfolding search_def search_from_def by (rule scan_first)

lemma search_sets_group:
  assumes "sets_group r" and "search r s = Some m"
  shows "snd (snd m) \<noteq> None"
  using ms_sets_group [OF assms(1) search_first [OF assms(2)]] by simp

lemma patterns_set_group:
  "sets_group action_pattern" "sets_group time_pattern"
  "list_all sets_group location_patterns"
  "sets_group verdict_pattern" "sets_group confidence_pattern" "sets_group reason_pattern"
  by (simp_all add: action_pattern_def time_pattern_def location_patterns_def
      verdict_pattern_def confidence_pattern_def reason_pattern_def)

subsection \<open>What a literal text matches\<close>

lemma ms_Seq_iff:
  "st' \<in> set (ms (Seq a b) s st) \<longleftrightarrow> (\<exists>st1 \<in> set (ms a s st). st' \<in> set (ms b s st1))"
  by auto







subsection \<open>What the number pattern matches\<close>

lemma ms_Star_Cls:
  "st' \<in> set (ms (Star (Cls p)) s st) \<Longrightarrow>
     snd st' = snd st \<and> fst st \<le> fst st' \<and> (fst st \<le> length s \<longrightarrow> fst st' \<le> length s)
     \<and> (\<forall>k. fst st \<le> k \<and> k < fst st' \<longrightarrow> p (s ! k))"
proof (induction "length s - fst st" arbitrary: st rule: less_induct)
  case less
  from less.prems consider "st' = st"
    | st1 where "st1 \<in> set (ms (Cls p) s st)" "fst st < fst st1 \<and> fst st1 \<le> length s"
        "st' \<in> set (ms (Star (Cls p)) s st1)"
    by (subst (asm) ms_Star_iff) blast
  then show ?case
  proof cases
    case 1
    then show ?thesis by auto
  next
    case 2
    from 2(1) have c: "fst st < length s" "p (s ! fst st)" "st1 = (Suc (fst st), snd st)"
      by (auto split: if_splits)
    have "length s - fst st1 < length s - fst st" using c by simp
    from less.hyps [OF this 2(3)] c(3)
    have ih: "snd st' = snd st" "Suc (fst st) \<le> fst st'" "fst st' \<le> length s"
      "\<forall>k. Suc (fst st) \<le> k \<and> k < fst st' \<longrightarrow> p (s ! k)"
      using c(1) by simp_all
    have "\<forall>k. fst st \<le> k \<and> k < fst st' \<longrightarrow> p (s ! k)"
    proof (intro allI impI)
      fix k assume k: "fst st \<le> k \<and> k < fst st'"
      show "p (s ! k)"
      proof (cases "k = fst st")
        case True
        with c(2) show ?thesis by simp
      next
        case False
        with k have "Suc (fst st) \<le> k \<and> k < fst st'" by simp
        with ih(4) show ?thesis by blast
      qed
    qed
    with ih show ?thesis by simp
  qed
qed

lemma slice_all:
  assumes "j \<le> length s" and "\<forall>k. i \<le> k \<and> k < j \<longrightarrow> p (s ! k)"
  shows "list_all p (slice s i j)"
  unfolding slice_def list_all_length
proof (intro allI impI)
  fix n assume n: "n < length (take (j - i) (drop i s))"
  then have "n < j - i" by simp
  then have "i \<le> i + n \<and> i + n < j" by simp
  with assms(2) have "p (s ! (i + n))" by blast
  moreover have "take (j - i) (drop i s) ! n = s ! (i + n)"
    using n assms(1) by simp
  ultimately show "p (take (j - i) (drop i s) ! n)" by simp
qed

lemma slice_append:
  assumes "i \<le> k" and "k \<le> j"
  shows "slice s i j = slice s i k @ slice s k j"
proof -
  have "j - i = (k - i) + (j - k)" using assms by simp
  then have "take (j - i) (drop i s) = take (k - i) (drop i s) @ take (j - k) (drop (k - i) (drop i s))"
    by (simp only: take_add)
  moreover have "drop (k - i) (drop i s) = drop k s" using assms(1) by simp
  ultimately show ?thesis by (simp add: slice_def)
qed

lemma slice_single: "k < length s \<Longrightarrow> slice s k (Suc k) = [s ! k]"
  using Cons_nth_drop_Suc [of k s] by (simp add: slice_def take_Suc_conv_app_nth)

lemma slice_nonempty: "i < j \<Longrightarrow> j \<le> length s \<Longrightarrow> slice s i j \<noteq> []"
  by (simp add: slice_def)

lemma float_of_digits:
  assumes "list_all isdigit x" and "x \<noteq> []"
  shows "float_of x = Some (real (digits_value x))"
proof -
  have t: "takeWhile isdigit x = x" and d: "dropWhile isdigit x = []"
    using assms(1) by (simp_all add: list_all_iff)
  show ?thesis unfolding float_of_def Let_def t d using assms(2) by simp
qed

lemma float_of_point:
  assumes "list_all isdigit d1" and "list_all isdigit d2" and "d2 \<noteq> []"
  shows "float_of (d1 @ CHR ''.'' # d2)
    = Some (real (digits_value d1) + real (digits_value d2) / 10 ^ length d2)"
proof -
  have n: "\<not> isdigit CHR ''.''" by (simp add: isdigit_def ord_def)
  have t: "takeWhile isdigit (d1 @ CHR ''.'' # d2) = d1"
    using assms(1) n by (simp add: list_all_iff)
  have d: "dropWhile isdigit (d1 @ CHR ''.'' # d2) = CHR ''.'' # d2"
    using assms(1) n by (simp add: list_all_iff)
  show ?thesis unfolding float_of_def Let_def t d using assms(2,3) by simp
qed

lemma float_of_nonneg: "float_of x = Some v \<Longrightarrow> 0 \<le> v"
  by (auto simp: float_of_def Let_def split: list.splits if_splits)

lemma ms_number:
  assumes "st' \<in> set (ms number_pattern s st)"
  shows "\<exists>x. float_of (slice s (fst st) (fst st')) = Some x"
proof -
  from assms obtain st1 st2 st3 where
    st1: "st1 \<in> set (ms (Star (Cls isdigit)) s st)" and
    st2: "st2 \<in> set (ms (Alt (Cls (\<lambda>x. x = CHR ''.'')) Eps) s st1)" and
    st3: "st3 \<in> set (ms (Cls isdigit) s st2)" and
    st4: "st' \<in> set (ms (Star (Cls isdigit)) s st3)"
    unfolding number_pattern_def digit_def opt_def plus_def lit_def seqs.simps ms_Seq_iff
    by blast
  from ms_Star_Cls [OF st1]
  have a: "fst st \<le> fst st1" "\<forall>k. fst st \<le> k \<and> k < fst st1 \<longrightarrow> isdigit (s ! k)"
    by simp_all
  from st3 have c: "fst st2 < length s" "isdigit (s ! fst st2)" "fst st3 = Suc (fst st2)"
    by (auto split: if_splits)
  from ms_Star_Cls [OF st4] c
  have d: "Suc (fst st2) \<le> fst st'" "fst st' \<le> length s"
    "\<forall>k. Suc (fst st2) \<le> k \<and> k < fst st' \<longrightarrow> isdigit (s ! k)"
    by simp_all
  have e: "\<forall>k. fst st2 \<le> k \<and> k < fst st' \<longrightarrow> isdigit (s ! k)"
  proof (intro allI impI)
    fix k assume k: "fst st2 \<le> k \<and> k < fst st'"
    show "isdigit (s ! k)"
    proof (cases "k = fst st2")
      case True
      with c(2) show ?thesis by simp
    next
      case False
      with k have "Suc (fst st2) \<le> k \<and> k < fst st'" by simp
      with d(3) show ?thesis by blast
    qed
  qed
  from st2 consider "st2 = st1"
    | "fst st1 < length s" "s ! fst st1 = CHR ''.''" "fst st2 = Suc (fst st1)"
    by (auto split: if_splits)
  then show ?thesis
  proof cases
    case 1
    have "\<forall>k. fst st \<le> k \<and> k < fst st' \<longrightarrow> isdigit (s ! k)"
    proof (intro allI impI)
      fix k assume k: "fst st \<le> k \<and> k < fst st'"
      show "isdigit (s ! k)"
      proof (cases "k < fst st1")
        case True
        with k a(2) show ?thesis by blast
      next
        case False
        with k 1 have "fst st2 \<le> k \<and> k < fst st'" by simp
        with e show ?thesis by blast
      qed
    qed
    from slice_all [OF d(2) this] have "list_all isdigit (slice s (fst st) (fst st'))" .
    moreover have "slice s (fst st) (fst st') \<noteq> []"
      using a(1) d(1,2) 1 by (intro slice_nonempty) simp_all
    ultimately show ?thesis using float_of_digits by blast
  next
    case 2
    have le: "fst st1 \<le> length s" using 2(1) by simp
    have p1: "list_all isdigit (slice s (fst st) (fst st1))"
      by (rule slice_all [OF le a(2)])
    have p2: "list_all isdigit (slice s (fst st2) (fst st'))"
      by (rule slice_all [OF d(2) e])
    have p3: "slice s (fst st2) (fst st') \<noteq> []"
      using d(1,2) by (intro slice_nonempty) simp_all
    have "slice s (fst st) (fst st') = slice s (fst st) (fst st1) @ slice s (fst st1) (fst st')"
      using a(1) d(1) 2(3) by (intro slice_append) simp_all
    also have "slice s (fst st1) (fst st') = slice s (fst st1) (fst st2) @ slice s (fst st2) (fst st')"
      using d(1) 2(3) by (intro slice_append) simp_all
    also have "slice s (fst st1) (fst st2) = [CHR ''.'']"
      using 2 slice_single [of "fst st1" s] by simp
    finally have "slice s (fst st) (fst st')
        = slice s (fst st) (fst st1) @ CHR ''.'' # slice s (fst st2) (fst st')"
      by simp
    with float_of_point [OF p1 p2 p3] show ?thesis by simp
  qed
qed

lemma confidence_group_parses:
  assumes "search confidence_pattern s = Some m"
  shows "\<exists>x. float_of (group1 s m) = Some x"
proof -
  from search_first [OF assms] obtain st1 st2 where
    "(fst (snd m), snd (snd m)) \<in> set (ms (Grp number_pattern) s st2)"
    unfolding confidence_pattern_def seqs.simps ms_Seq_iff by blast
  then obtain st3 where st3: "st3 \<in> set (ms number_pattern s st2)"
    "snd (snd m) = Some (fst st2, fst st3)"
    by auto
  from ms_number [OF st3(1)] st3(2) show ?thesis by (simp add: group1_def)
qed

lemma parse_output_default:
  assumes "search confidence_pattern out = None"
  shows "parse_output out = Inr
    (case search verdict_pattern out of Some m \<Rightarrow> lower (group1 out m) | None \<Rightarrow> ''unverified'',
     0.5,
     case search reason_pattern out of Some m \<Rightarrow> strip (group1 out m)
       | None \<Rightarrow> ''Analysis completed'')"
  using assms by (simp add: parse_output_def Let_def)

lemma parse_output_parsed:
  assumes "search confidence_pattern out = Some m" and "float_of (group1 out m) = Some x"
  shows "parse_output out = Inr
    (case search verdict_pattern out of Some m \<Rightarrow> lower (group1 out m) | None \<Rightarrow> ''unverified'',
     x,
     case search reason_pattern out of Some m \<Rightarrow> strip (group1 out m)
       | None \<Rightarrow> ''Analysis completed'')"
  using assms by (simp add: parse_output_def Let_def)

lemma parse_output_total: "\<exists>p. parse_output out = Inr p"
proof (cases "search confidence_pattern out")
  case None
  from parse_output_default [OF None] show ?thesis by blast
next
  case (Some m)
  from confidence_group_parses [OF Some] obtain x where "float_of (group1 out m) = Some x"
    by blast
  from parse_output_parsed [OF Some this] show ?thesis by blast
qed

subsection \<open>Rounding\<close>

lemma round_half_even_nonneg: "0 \<le> y \<Longrightarrow> 0 \<le> round_half_even y"
proof -
  assume "0 \<le> y"
  then have "0 \<le> \<lfloor>y\<rfloor>" by simp
  then show ?thesis by (simp add: round_half_even_def Let_def)
qed

lemma round_half_even_le:
  assumes "y \<le> of_int n"
  shows "round_half_even y \<le> n"
proof -
  have f: "\<lfloor>y\<rfloor> \<le> n" using assms by (simp add: floor_le_iff)
  show ?thesis
  proof (cases "y - of_int \<lfloor>y\<rfloor> < 1 / 2")
    case True
    with f show ?thesis by (simp add: round_half_even_def Let_def)
  next
    case False
    then have "of_int \<lfloor>y\<rfloor> + 1 / 2 \<le> y" by simp
    with assms have "of_int \<lfloor>y\<rfloor> < (of_int n :: real)" by simp
    then have "\<lfloor>y\<rfloor> < n" by simp
    then have "\<lfloor>y\<rfloor> + 1 \<le> n" by simp
    with f show ?thesis by (simp add: round_half_even_def Let_def)
  qed
qed

lemma round_half_even_near: "\<bar>of_int (round_half_even y) - y\<bar> \<le> 1 / 2"
proof -
  have "of_int \<lfloor>y\<rfloor> \<le> y" "y < of_int \<lfloor>y\<rfloor> + 1" by linarith+
  then show ?thesis by (auto simp: round_half_even_def Let_def)
qed

lemma binary64_one: "binary64 1 = 1"
  by (simp add: py_round_eval)

lemma exponent_down_spec:
  "x < 2 powi (e + 1) \<Longrightarrow>
     exponent_down n e x \<le> e \<and> x < 2 powi (exponent_down n e x + 1)"
proof (induction n arbitrary: e)
  case 0
  then show ?case by (simp add: exponent_down.simps)
next
  case (Suc n)
  show ?case
  proof (cases "2 powi e \<le> x")
    case True
    with Suc.prems show ?thesis by (simp add: exponent_down.simps)
  next
    case False
    then have "x < 2 powi ((e - 1) + 1)" by simp
    from Suc.IH [OF this] False show ?thesis
      by (subst (1 2) exponent_down.simps) simp
  qed
qed

lemma significand_nonneg: "0 \<le> significand x"
  unfolding significand_def by (rule round_half_even_nonneg) simp

lemma binary64_nonneg: "0 \<le> x \<Longrightarrow> 0 \<le> binary64 x"
  using significand_nonneg [of x] by (simp add: binary64_def sgn_if)

lemma binary64_le_one:
  assumes "x \<le> 1"
  shows "binary64 x \<le> 1"
proof -
  consider "x < 0" | "x = 0" | "0 < x" "x < 1" | "x = 1" using assms by linarith
  then show ?thesis
  proof cases
    case 1
    have "0 \<le> of_int (significand x) * (2::real) powi (exponent \<bar>x\<bar> - 52)"
      using significand_nonneg [of x] by simp
    with 1 show ?thesis by (simp add: binary64_def sgn_if)
  next
    case 2
    then show ?thesis by (simp add: binary64_def)
  next
    case 3
    define e where "e = exponent_down 1021 (- 1) x"
    have ex: "exponent \<bar>x\<bar> = e" using 3 by (simp add: exponent_def e_def)
    have "x < 2 powi ((- 1) + 1)" using 3 by simp
    from exponent_down_spec [OF this, of 1021]
    have e: "e \<le> - 1" "x < 2 powi (e + 1)" by (simp_all add: e_def)
    have split: "(2::real) powi (e + 1) = 2 powi (e - 52) * 2 ^ 53"
    proof -
      have "(2::real) powi ((e - 52) + 53) = 2 powi (e - 52) * 2 powi 53"
        by (rule power_int_add) simp
      moreover have "(e - 52) + 53 = e + 1" by simp
      ultimately show ?thesis by simp
    qed
    have pos: "(0::real) < 2 powi (e - 52)" by simp
    have "x / 2 powi (e - 52) \<le> 2 ^ 53"
      using e(2) pos unfolding split by (simp add: field_simps)
    then have "\<bar>x\<bar> / 2 powi (e - 52) \<le> of_int (2 ^ 53)" using 3 by simp
    from round_half_even_le [OF this] have "significand x \<le> 2 ^ 53"
      by (simp add: significand_def ex)
    then have "(of_int (significand x) :: real) \<le> 2 ^ 53"
      by (metis of_int_le_iff of_int_numeral of_int_power)
    then have "of_int (significand x) * (2::real) powi (e - 52) \<le> 2 ^ 53 * 2 powi (e - 52)"
      using pos by (simp add: mult_right_mono)
    also have "\<dots> = 2 powi (e + 1)" by (simp add: split)
    also have "\<dots> \<le> 2 powi 0" using e(1) by (intro power_int_increasing) simp_all
    finally have "of_int (significand x) * (2::real) powi (e - 52) \<le> 1" by simp
    moreover have "exponent x = e" using 3 by (simp add: exponent_def e_def)
    ultimately show ?thesis using 3 by (simp add: binary64_def)
  next
    case 4
    then show ?thesis by (simp add: binary64_one)
  qed
qed

lemma py_round_nonneg: "0 \<le> x \<Longrightarrow> 0 \<le> py_round x 3"
  using round_half_even_nonneg [of "binary64 x * 10 ^ 3"] binary64_nonneg [of x]
  by (simp add: py_round_def)

lemma py_round_le_one:
  assumes "x \<le> 1"
  shows "py_round x 3 \<le> 1"
proof (cases "isinf x")
  case True
  with assms show ?thesis by (simp add: py_round_def)
next
  case False
  have "binary64 x * 10 ^ 3 \<le> of_int 1000" using binary64_le_one [OF assms] by simp
  from round_half_even_le [OF this] have "round_half_even (binary64 x * 10 ^ 3) \<le> 1000" .
  then have "(of_int (round_half_even (binary64 x * 10 ^ 3)) :: real) \<le> 1000" by simp
  with False show ?thesis by (simp add: py_round_def)
qed

lemma py_round_grid:
  assumes "\<not> isinf x"
  shows "\<exists>k::int. py_round x 3 = of_int k / 1000
    \<and> \<bar>of_int k - binary64 x * 1000\<bar> \<le> 1 / 2"
proof -
  have "py_round x 3 = of_int (round_half_even (binary64 x * 1000)) / 1000"
    using assms by (simp add: py_round_def)
  moreover have "\<bar>of_int (round_half_even (binary64 x * 1000)) - binary64 x * 1000\<bar> \<le> 1 / 2"
    by (rule round_half_even_near)
  ultimately show ?thesis by blast
qed

section \<open>Properties of the verifier with a client\<close>

lemma verify_claim_answer:
  assumes "groq_client C = Some create"
    and "create (claim, evidence_text (gather_evidence C claim)) = Inr reply"
    and "parse_output (strip reply) = Inr (v, c, r)"
  shows "verify_claim C claim =
    (\<lparr>vr_claim = claim, verdict = v, vr_confidence = py_round c 3, rationale = r,
       evidence = take 20 (gather_evidence C claim)\<rparr>,
     [(claim, evidence_text (gather_evidence C claim))])"
  using assms by (simp add: verify_claim_def Let_def)

lemma verify_claim_error:
  assumes "groq_client C = Some create"
    and "create (claim, evidence_text (gather_evidence C claim)) = Inl e"
  shows "verify_claim C claim =
    (\<lparr>vr_claim = claim, verdict = ''unverified'', vr_confidence = 0.3,
       rationale = ''Service error'', evidence = take 20 (gather_evidence C claim)\<rparr>,
     [(claim, evidence_text (gather_evidence C claim))])"
  using assms by (simp add: verify_claim_def Let_def py_round_default)

lemma verify_claim_absent:
  assumes "groq_client C = None"
  shows "verify_claim C claim =
    (\<lparr>vr_claim = claim, verdict = ''unverified'', vr_confidence = 0.3,
       rationale = ''Verification service unavailable'',
       evidence = take 20 (gather_evidence C claim)\<rparr>, [])"
  using assms by (simp add: verify_claim_def Let_def py_round_default)

lemma answering_client:
  "groq_client (answering reply) = Some (\<lambda>prompt. Inr reply)"
  by (simp add: answering_def)







text \<open>
  Claim C6, as amended. The confidence of every result of \<open>verify_claim\<close> is the parsed or
  default value rounded to 3 decimals and is not negative: 0.3 without a client or after
  a service error, 0.5 without a match of the CONFIDENCE pattern, and else \<open>round\<close> of the
  float of the number the pattern captured. Unless that float is \<open>inf\<close>, the result is a
  whole number of thousandths, at most half a thousandth away from the float. It is at
  most 1 when the number is; the number is not clamped.
\<close>

theorem confidence_rounded:
  "0 \<le> vr_confidence (fst (verify_claim C claim))
   \<and> (groq_client C = None \<longrightarrow> vr_confidence (fst (verify_claim C claim)) = 0.3)
   \<and> (\<forall>create e. groq_client C = Some create
          \<and> create (claim, evidence_text (gather_evidence C claim)) = Inl e \<longrightarrow>
        vr_confidence (fst (verify_claim C claim)) = 0.3)
   \<and> (\<forall>create reply. groq_client C = Some create
          \<and> create (claim, evidence_text (gather_evidence C claim)) = Inr reply
          \<and> search confidence_pattern (strip reply) = None \<longrightarrow>
        vr_confidence (fst (verify_claim C claim)) = 0.5)
   \<and> (\<forall>create reply m. groq_client C = Some create
          \<and> create (claim, evidence_text (gather_evidence C claim)) = Inr reply
          \<and> search confidence_pattern (strip reply) = Some m \<longrightarrow>
        (\<exists>x. float_of (group1 (strip reply) m) = Some x \<and> 0 \<le> x
           \<and> vr_confidence (fst (verify_claim C claim)) = py_round x 3
           \<and> (\<not> isinf x \<longrightarrow>
                (\<exists>k::int. vr_confidence (fst (verify_claim C claim)) = of_int k / 1000
                   \<and> \<bar>of_int k - binary64 x * 1000\<bar> \<le> 1 / 2))
           \<and> (x \<le> 1 \<longrightarrow> vr_confidence (fst (verify_claim C claim)) \<le> 1)))"
proof -
  let ?conf = "vr_confidence (fst (verify_claim C claim))"
  let ?prompt = "(claim, evidence_text (gather_evidence C claim))"
  have absent: "groq_client C = None \<longrightarrow> ?conf = 0.3"
  proof (intro impI)
    assume "groq_client C = None"
    from verify_claim_absent [OF this] show "?conf = 0.3"
      by (simp only: fst_conv VerificationResult.simps)
  qed
  have failed: "\<forall>create e. groq_client C = Some create \<and> create ?prompt = Inl e \<longrightarrow> ?conf = 0.3"
  proof (intro allI impI)
    fix create e assume "groq_client C = Some create \<and> create ?prompt = Inl e"
    then have "groq_client C = Some create" "create ?prompt = Inl e" by simp_all
    from verify_claim_error [OF this] show "?conf = 0.3"
      by (simp only: fst_conv VerificationResult.simps)
  qed
  have parsed: "\<forall>create reply m. groq_client C = Some create \<and> create ?prompt = Inr reply
          \<and> search confidence_pattern (strip reply) = Some m \<longrightarrow>
        (\<exists>x. float_of (group1 (strip reply) m) = Some x \<and> 0 \<le> x \<and> ?conf = py_round x 3
           \<and> (\<not> isinf x \<longrightarrow>
                (\<exists>k::int. ?conf = of_int k / 1000 \<and> \<bar>of_int k - binary64 x * 1000\<bar> \<le> 1 / 2))
           \<and> (x \<le> 1 \<longrightarrow> ?conf \<le> 1))"
  proof (intro allI impI)
    fix create reply m
    assume "groq_client C = Some create \<and> create ?prompt = Inr reply
          \<and> search confidence_pattern (strip reply) = Some m"
    then have h: "groq_client C = Some create" "create ?prompt = Inr reply"
      "search confidence_pattern (strip reply) = Some m" by simp_all
    from confidence_group_parses [OF h(3)] obtain x
      where x: "float_of (group1 (strip reply) m) = Some x" by blast
    from verify_claim_answer [OF h(1,2) parse_output_parsed [OF h(3) x]]
    have c: "?conf = py_round x 3" by (simp only: fst_conv VerificationResult.simps)
    have n: "0 \<le> x" by (rule float_of_nonneg [OF x])
    have b: "x \<le> 1 \<longrightarrow> ?conf \<le> 1"
    proof (intro impI)
      assume "x \<le> 1"
      from py_round_le_one [OF this] show "?conf \<le> 1" by (simp only: c)
    qed
    have g: "\<not> isinf x \<longrightarrow>
        (\<exists>k::int. ?conf = of_int k / 1000 \<and> \<bar>of_int k - binary64 x * 1000\<bar> \<le> 1 / 2)"
    proof (intro impI)
      assume "\<not> isinf x"
      from py_round_grid [OF this]
      show "\<exists>k::int. ?conf = of_int k / 1000 \<and> \<bar>of_int k - binary64 x * 1000\<bar> \<le> 1 / 2"
        by (simp only: c)
    qed
    show "\<exists>x. float_of (group1 (strip reply) m) = Some x \<and> 0 \<le> x
        \<and> ?conf = py_round x 3
        \<and> (\<not> isinf x \<longrightarrow>
             (\<exists>k::int. ?conf = of_int k / 1000 \<and> \<bar>of_int k - binary64 x * 1000\<bar> \<le> 1 / 2))
        \<and> (x \<le> 1 \<longrightarrow> ?conf \<le> 1)"
      by (rule exI [of _ x]) (intro conjI x n c g b)
  qed
  have default: "\<forall>create reply. groq_client C = Some create \<and> create ?prompt = Inr reply
          \<and> search confidence_pattern (strip reply) = None \<longrightarrow> ?conf = 0.5"
  proof (intro allI impI)
    fix create reply
    assume "groq_client C = Some create \<and> create ?prompt = Inr reply
          \<and> search confidence_pattern (strip reply) = None"
    then have h: "groq_client C = Some create" "create ?prompt = Inr reply"
      "search confidence_pattern (strip reply) = None" by simp_all
    from verify_claim_answer [OF h(1,2) parse_output_default [OF h(3)]]
    show "?conf = 0.5" by (simp only: fst_conv VerificationResult.simps py_round_default)
  qed
  have nonneg: "0 \<le> ?conf"
  proof (cases "groq_client C")
    case None
    with absent have "?conf = 0.3" by (rule_tac mp)
    then show ?thesis by simp
  next
    case (Some create)
    show ?thesis
    proof (cases "create ?prompt")
      case (Inl e)
      from failed [rule_format, of create e] Some Inl have "?conf = 0.3" by (simp only:)
      then show ?thesis by simp
    next
      case (Inr reply)
      show ?thesis
      proof (cases "search confidence_pattern (strip reply)")
        case None
        from default [rule_format, of create reply] \<open>groq_client C = Some create\<close> Inr None
        have "?conf = 0.5" by (simp only:)
        then show ?thesis by simp
      next
        case (Some m)
        have "\<exists>x. float_of (group1 (strip reply) m) = Some x \<and> 0 \<le> x
            \<and> ?conf = py_round x 3
            \<and> (\<not> isinf x \<longrightarrow>
                 (\<exists>k::int. ?conf = of_int k / 1000 \<and> \<bar>of_int k - binary64 x * 1000\<bar> \<le> 1 / 2))
            \<and> (x \<le> 1 \<longrightarrow> ?conf \<le> 1)"
          by (rule parsed [rule_format, of create reply m])
            (intro conjI \<open>groq_client C = Some create\<close> Inr Some)
        then obtain x where x: "0 \<le> x" "?conf = py_round x 3" by blast
        from py_round_nonneg [OF x(1)] show ?thesis by (simp only: x(2))
      qed
    qed
  qed
  show ?thesis by (intro conjI nonneg absent failed default parsed)
qed

lemma percent_facts:
  "strip ''VERDICT: TRUE CONFIDENCE: 95 REASON: Confirmed by the airport.''
     = ''VERDICT: TRUE CONFIDENCE: 95 REASON: Confirmed by the airport.''"
  "search confidence_pattern ''VERDICT: TRUE CONFIDENCE: 95 REASON: Confirmed by the airport.''
     = Some (14, 28, Some (26, 28))"
  "group1 ''VERDICT: TRUE CONFIDENCE: 95 REASON: Confirmed by the airport.''
     (14, 28, Some (26, 28)) = ''95''"
  by code_simp+

lemma float_of_95: "float_of ''95'' = Some 95"
  by (simp add: float_of_def isdigit_def ord_def digits_value_def)

lemma py_round_95: "py_round 95 3 = 95"
  by (simp add: py_round_eval)

text \<open>Claim C6 as stated does not hold: the answer "CONFIDENCE: 95" gives the confidence
  95.\<close>

theorem confidence_above_one_counterexample:
  "vr_confidence (fst (verify_claim
      (answering ''VERDICT: TRUE CONFIDENCE: 95 REASON: Confirmed by the airport.'')
      ''Is the airport in Delhi really closed?'')) = 95
   \<and> \<not> vr_confidence (fst (verify_claim
      (answering ''VERDICT: TRUE CONFIDENCE: 95 REASON: Confirmed by the airport.'')
      ''Is the airport in Delhi really closed?'')) \<le> 1"
proof -
  let ?reply = "''VERDICT: TRUE CONFIDENCE: 95 REASON: Confirmed by the airport.''"
  let ?C = "answering ?reply"
  let ?claim = "''Is the airport in Delhi really closed?''"
  have h: "groq_client ?C = Some (\<lambda>prompt. Inr ?reply)" by (rule answering_client)
  have a: "(\<lambda>prompt. Inr ?reply :: error + string)
      (?claim, evidence_text (gather_evidence ?C ?claim)) = Inr ?reply"
    by simp
  have s: "search confidence_pattern (strip ?reply) = Some (14, 28, Some (26, 28))"
    by (simp only: percent_facts)
  have f: "float_of (group1 (strip ?reply) (14, 28, Some (26, 28))) = Some 95"
    by (simp only: percent_facts float_of_95)
  from verify_claim_answer [OF h a parse_output_parsed [OF s f]]
  have "vr_confidence (fst (verify_claim ?C ?claim)) = 95"
    by (simp only: fst_conv VerificationResult.simps py_round_95)
  then show ?thesis by simp
qed

lemma tie_facts:
  "strip ''CONFIDENCE: 0.1235'' = ''CONFIDENCE: 0.1235''"
  "search confidence_pattern ''CONFIDENCE: 0.1235'' = Some (0, 18, Some (12, 18))"
  "group1 ''CONFIDENCE: 0.1235'' (0, 18, Some (12, 18)) = ''0.1235''"
  "strip ''CONFIDENCE: 0.8125'' = ''CONFIDENCE: 0.8125''"
  "search confidence_pattern ''CONFIDENCE: 0.8125'' = Some (0, 18, Some (12, 18))"
  "group1 ''CONFIDENCE: 0.8125'' (0, 18, Some (12, 18)) = ''0.8125''"
  by code_simp+

lemma float_of_ties: "float_of ''0.1235'' = Some 0.1235" "float_of ''0.8125'' = Some 0.8125"
  by (simp_all add: float_of_def isdigit_def ord_def digits_value_def)

text \<open>The float of 0.1235 lies below the tie and rounds down; 0.8125 is a float and a
  tie, and rounds to the even neighbour.\<close>

lemma py_round_ties: "py_round 0.1235 3 = 0.123" "py_round 0.8125 3 = 0.812"
  by (simp_all add: py_round_eval)

theorem confidence_rounded_witness:
  "groq_client (answering ''CONFIDENCE: 0.1235'') = Some (\<lambda>prompt. Inr ''CONFIDENCE: 0.1235'')
   \<and> search confidence_pattern (strip ''CONFIDENCE: 0.1235'') = Some (0, 18, Some (12, 18))
   \<and> vr_confidence (fst (verify_claim (answering ''CONFIDENCE: 0.1235'')
        ''Is the airport in Delhi really closed?'')) = 0.123
   \<and> vr_confidence (fst (verify_claim (answering ''CONFIDENCE: 0.8125'')
        ''Is the airport in Delhi really closed?'')) = 0.812"
proof -
  let ?claim = "''Is the airport in Delhi really closed?''"
  have first: "vr_confidence (fst (verify_claim (answering ''CONFIDENCE: 0.1235'') ?claim))
      = 0.123"
  proof -
    let ?C = "answering ''CONFIDENCE: 0.1235''"
    have h: "groq_client ?C = Some (\<lambda>prompt. Inr ''CONFIDENCE: 0.1235'')"
      by (rule answering_client)
    have s: "search confidence_pattern (strip ''CONFIDENCE: 0.1235'')
        = Some (0, 18, Some (12, 18))"
      by (simp only: tie_facts)
    have f: "float_of (group1 (strip ''CONFIDENCE: 0.1235'') (0, 18, Some (12, 18)))
        = Some 0.1235"
      by (simp only: tie_facts float_of_ties)
    have a: "(\<lambda>prompt. Inr ''CONFIDENCE: 0.1235'' :: error + string)
        (?claim, evidence_text (gather_evidence ?C ?claim)) = Inr ''CONFIDENCE: 0.1235''"
      by simp
    note t = confidence_rounded [of ?C ?claim, THEN conjunct2, THEN conjunct2, THEN conjunct2,
        THEN conjunct2, rule_format, of "\<lambda>prompt. Inr ''CONFIDENCE: 0.1235''"
        "''CONFIDENCE: 0.1235''" "(0, 18, Some (12, 18))"]
    from t [OF conjI [OF h conjI [OF a s]]]
    obtain x where x:
      "float_of (group1 (strip ''CONFIDENCE: 0.1235'') (0, 18, Some (12, 18))) = Some x"
      "vr_confidence (fst (verify_claim ?C ?claim)) = py_round x 3"
      by blast
    from x(1) f have "x = 0.1235" by (simp only: option.inject)
    with x(2) have "vr_confidence (fst (verify_claim ?C ?claim)) = py_round 0.1235 3"
      by (simp only:)
    then show ?thesis by (simp only: py_round_ties)
  qed
  have second: "vr_confidence (fst (verify_claim (answering ''CONFIDENCE: 0.8125'') ?claim))
      = 0.812"
  proof -
    let ?C = "answering ''CONFIDENCE: 0.8125''"
    have h: "groq_client ?C = Some (\<lambda>prompt. Inr ''CONFIDENCE: 0.8125'')"
      by (rule answering_client)
    have s: "search confidence_pattern (strip ''CONFIDENCE: 0.8125'')
        = Some (0, 18, Some (12, 18))"
      by (simp only: tie_facts)
    have f: "float_of (group1 (strip ''CONFIDENCE: 0.8125'') (0, 18, Some (12, 18)))
        = Some 0.8125"
      by (simp only: tie_facts float_of_ties)
    have a: "(\<lambda>prompt. Inr ''CONFIDENCE: 0.8125'' :: error + string)
        (?claim, evidence_text (gather_evidence ?C ?claim)) = Inr ''CONFIDENCE: 0.8125''"
      by simp
    note t = confidence_rounded [of ?C ?claim, THEN conjunct2, THEN conjunct2, THEN conjunct2,
        THEN conjunct2, rule_format, of "\<lambda>prompt. Inr ''CONFIDENCE: 0.8125''"
        "''CONFIDENCE: 0.8125''" "(0, 18, Some (12, 18))"]
    from t [OF conjI [OF h conjI [OF a s]]]
    obtain x where x:
      "float_of (group1 (strip ''CONFIDENCE: 0.8125'') (0, 18, Some (12, 18))) = Some x"
      "vr_confidence (fst (verify_claim ?C ?claim)) = py_round x 3"
      by blast
    from x(1) f have "x = 0.8125" by (simp only: option.inject)
    with x(2) have "vr_confidence (fst (verify_claim ?C ?claim)) = py_round 0.8125 3"
      by (simp only:)
    then show ?thesis by (simp only: py_round_ties)
  qed
  have h: "groq_client (answering ''CONFIDENCE: 0.1235'')
      = Some (\<lambda>prompt. Inr ''CONFIDENCE: 0.1235'')"
    by (rule answering_client)
  have s: "search confidence_pattern (strip ''CONFIDENCE: 0.1235'') = Some (0, 18, Some (12, 18))"
    by (simp only: tie_facts)
  from h s first second show ?thesis by blast
qed

end
